theory Spec2Isabelle
  imports Complex_Main "HOL-Library.Sublist" "HOL-Library.AList"
begin

section \<open>Type descriptions\<close>

text \<open>
  The declarative metadata of \<^verbatim>\<open>n8n-workflow\<close>, restricted to the fields that
  \<^verbatim>\<open>packages/cli/src/load-nodes-and-credentials.ts\<close> reads or writes. An optional
  field is an \<open>option\<close>; \<open>None\<close> is JavaScript's \<^verbatim>\<open>undefined\<close>. Descriptions are
  values: two descriptions never share a property or an options array.
\<close>

record INodePropertyOptions =
  opt_name :: string
  opt_value :: string

record INodeProperties =
  prop_name :: string
  prop_options :: "INodePropertyOptions list option"

text \<open>\<^verbatim>\<open>version: number | number[]\<close>; numbers are rationals (no NaN).\<close>

datatype nodeVersion = VersionNumber rat | VersionArray "rat list"

text \<open>
  \<open>credentials\<close> keeps the \<^verbatim>\<open>name\<close> of each \<^verbatim>\<open>INodeCredentialDescription\<close>, the only
  field the loader destructures. \<open>usableAsTool\<close> is declared \<^verbatim>\<open>usableAsTool?: true\<close>.
\<close>

record INodeTypeDescription =
  node_name :: string
  version :: nodeVersion
  defaultVersion :: "rat option"
  usableAsTool :: bool
  properties :: "INodeProperties list"
  credentials :: "string list option"

datatype authenticate = IAuthenticateGeneric | AuthenticateFunction

record ICredentialType =
  cred_name :: string
  extends :: "string list option"
  authenticate :: "authenticate option"

datatype error = TypeError string | ApplicationError string | LoaderError string

section \<open>Constants\<close>

text \<open>
  Modelled from the spec: \<^verbatim>\<open>CUSTOM_API_CALL_NAME\<close> and \<^verbatim>\<open>CUSTOM_API_CALL_KEY\<close> are
  imported from \<^verbatim>\<open>@/constants\<close>, which is not among the sources. The spec calls the
  synthetic entry the Custom API Call option; no general theorem below depends on the
  two values.
\<close>

definition CUSTOM_API_CALL_NAME :: string where
  "CUSTOM_API_CALL_NAME = ''Custom API Call''"

definition CUSTOM_API_CALL_KEY :: string where
  "CUSTOM_API_CALL_KEY = ''__CUSTOM_API_CALL__''"

definition customApiCallOption :: INodePropertyOptions where
  "customApiCallOption = \<lparr>opt_name = CUSTOM_API_CALL_NAME, opt_value = CUSTOM_API_CALL_KEY\<rparr>"

section \<open>supportsProxyAuth\<close>

definition proxyParents :: "string list" where
  "proxyParents = [''oAuth2Api'', ''googleOAuth2Api'', ''oAuth1Api'']"

definition unknownCredentialWarning :: "string \<Rightarrow> string \<Rightarrow> string" where
  "unknownCredentialWarning nodeName name =
     ''Failed to load Custom API options for the node '' @ [CHR 0x22] @ nodeName @ [CHR 0x22]
       @ '': Unknown credential name '' @ [CHR 0x22] @ name @ [CHR 0x22]"

text \<open>
  The callback of \<^verbatim>\<open>description.credentials.some\<close> for one credential name: the type is
  looked up by name in \<^verbatim>\<open>this.types.credentials\<close>; an unknown name is logged and counts
  as false; otherwise \<^verbatim>\<open>authenticate !== undefined\<close>, or else
  \<^verbatim>\<open>Array.isArray(extends)\<close> and some element of \<^verbatim>\<open>extends\<close> is in the list of parents.
  The second component holds the warnings handed to \<^verbatim>\<open>this.logger.warn\<close>.
\<close>

definition proxyAuthCallback :: "ICredentialType list \<Rightarrow> string \<Rightarrow> string \<Rightarrow> bool \<times> string list" where
  "proxyAuthCallback creds nodeName name =
     (case find (\<lambda>t. cred_name t = name) creds of
        None \<Rightarrow> (False, [unknownCredentialWarning nodeName name])
      | Some credType \<Rightarrow>
          if authenticate credType \<noteq> None then (True, [])
          else (case extends credType of
                  None \<Rightarrow> (False, [])
                | Some parents \<Rightarrow>
                    (list_ex (\<lambda>parentType. parentType \<in> set proxyParents) parents, [])))"

text \<open>\<^verbatim>\<open>some\<close> stops at the first name for which the callback is true.\<close>

fun someCredential :: "ICredentialType list \<Rightarrow> string \<Rightarrow> string list \<Rightarrow> bool \<times> string list" where
  "someCredential creds nodeName [] = (False, [])"
| "someCredential creds nodeName (name # rest) =
     (case proxyAuthCallback creds nodeName name of
        (True, warns) \<Rightarrow> (True, warns)
      | (False, warns) \<Rightarrow>
          (case someCredential creds nodeName rest of
             (r, warns') \<Rightarrow> (r, warns @ warns')))"

definition supportsProxyAuth :: "ICredentialType list \<Rightarrow> INodeTypeDescription \<Rightarrow> bool \<times> string list" where
  "supportsProxyAuth creds description =
     (case credentials description of
        None \<Rightarrow> (False, [])
      | Some cs \<Rightarrow> someCredential creds (node_name description) cs)"

section \<open>injectCustomApiCallOptions\<close>

definition isLatestVersion :: "INodeTypeDescription \<Rightarrow> bool" where
  "isLatestVersion node =
     (defaultVersion node = None \<or>
      (case version node of
         VersionNumber v \<Rightarrow> defaultVersion node = Some v
       | VersionArray vs \<Rightarrow> False))"

definition isResourceOrOperation :: "INodeProperties \<Rightarrow> bool" where
  "isResourceOrOperation p = (prop_name p \<in> set [''resource'', ''operation''])"

text \<open>
  The callback of \<^verbatim>\<open>node.properties.forEach\<close>. On an empty array
  \<^verbatim>\<open>p.options[p.options.length - 1]\<close> is \<^verbatim>\<open>undefined\<close> and reading its \<^verbatim>\<open>name\<close>
  throws a \<^verbatim>\<open>TypeError\<close>.
\<close>

definition injectProperty :: "INodeProperties \<Rightarrow> error + INodeProperties" where
  "injectProperty p =
     (if isResourceOrOperation p then
        (case prop_options p of
           None \<Rightarrow> Inr p
         | Some opts \<Rightarrow>
             if opts = [] then Inl (TypeError ''Cannot read properties of undefined (reading name)'')
             else if opt_name (last opts) \<noteq> CUSTOM_API_CALL_NAME
               then Inr (p\<lparr>prop_options := Some (opts @ [customApiCallOption])\<rparr>)
             else Inr p)
      else Inr p)"

fun forEachProperty :: "INodeProperties list \<Rightarrow> error + INodeProperties list" where
  "forEachProperty [] = Inr []"
| "forEachProperty (p # ps) =
     (case injectProperty p of
        Inl e \<Rightarrow> Inl e
      | Inr p' \<Rightarrow>
          (case forEachProperty ps of
             Inl e \<Rightarrow> Inl e
           | Inr ps' \<Rightarrow> Inr (p' # ps')))"

text \<open>The callback of \<^verbatim>\<open>this.types.nodes.forEach\<close>, with the warnings it logged.\<close>

definition injectNode ::
  "ICredentialType list \<Rightarrow> INodeTypeDescription \<Rightarrow> error + (INodeTypeDescription \<times> string list)" where
  "injectNode creds node =
     (if isLatestVersion node then
        (case supportsProxyAuth creds node of
           (False, warns) \<Rightarrow> Inr (node, warns)
         | (True, warns) \<Rightarrow>
             (case forEachProperty (properties node) of
                Inl e \<Rightarrow> Inl e
              | Inr ps \<Rightarrow> Inr (node\<lparr>properties := ps\<rparr>, warns)))
      else Inr (node, []))"

text \<open>
  The pass over \<^verbatim>\<open>this.types.nodes\<close>. A fault leaves the pass at once; the
  descriptions already rewritten at that moment are not part of the result.
\<close>

fun injectCustomApiCallOptions ::
  "ICredentialType list \<Rightarrow> INodeTypeDescription list \<Rightarrow> error + (INodeTypeDescription list \<times> string list)" where
  "injectCustomApiCallOptions creds [] = Inr ([], [])"
| "injectCustomApiCallOptions creds (node # nodes) =
     (case injectNode creds node of
        Inl e \<Rightarrow> Inl e
      | Inr (node', warns) \<Rightarrow>
          (case injectCustomApiCallOptions creds nodes of
             Inl e \<Rightarrow> Inl e
           | Inr (nodes', warns') \<Rightarrow> Inr (node' # nodes', warns @ warns')))"

section \<open>Directory loaders\<close>

record KnownNode =
  kn_className :: string
  kn_sourcePath :: string

record KnownCredential =
  kc_className :: string
  kc_sourcePath :: string
  kc_supportedNodes :: "string list option"
  kc_extends :: "string list option"

text \<open>A loaded class \<^verbatim>\<open>{ type, sourcePath }\<close>; the instance is kept as its class name.\<close>

record LoadedClass =
  loaded_type :: string
  loaded_sourcePath :: string

datatype loaderClass = CustomDirectoryLoader | PackageDirectoryLoader | LazyPackageDirectoryLoader

text \<open>
  The fields of a \<^verbatim>\<open>DirectoryLoader\<close> of \<^verbatim>\<open>n8n-core\<close> that this file reads. The
  objects \<^verbatim>\<open>known\<close>, \<^verbatim>\<open>nodeTypes\<close> and \<^verbatim>\<open>credentialTypes\<close> are maps from type names.
\<close>

record DirectoryLoader =
  loaderClass :: loaderClass
  packageName :: string
  directory :: string
  isLazyLoaded :: bool
  loader_known_nodes :: "string \<rightharpoonup> KnownNode"
  loader_known_credentials :: "string \<rightharpoonup> KnownCredential"
  loader_types_nodes :: "INodeTypeDescription list"
  loader_types_credentials :: "ICredentialType list"
  nodeTypes :: "string \<rightharpoonup> LoadedClass"
  credentialTypes :: "string \<rightharpoonup> LoadedClass"

text \<open>
  Modelled from the spec: the class hierarchy of \<^verbatim>\<open>n8n-core\<close> is not among the sources.
  \<^verbatim>\<open>loader instanceof PackageDirectoryLoader\<close> holds when the loader represents an
  installed (non-custom) package; the lazy loader is a package loader.
\<close>

definition instanceofPackageDirectoryLoader :: "DirectoryLoader \<Rightarrow> bool" where
  "instanceofPackageDirectoryLoader loader = (loaderClass loader \<noteq> CustomDirectoryLoader)"


section \<open>The service state\<close>

datatype logEntry = LogWarn string | LogError string | Reported error

text \<open>
  The fields of \<^verbatim>\<open>LoadNodesAndCredentials\<close>. \<open>loaders\<close> is an association list in
  insertion order, the order in which \<^verbatim>\<open>Object.values\<close> enumerates package names (none
  of which is an array index). A key of \<open>known_nodes\<close> may hold \<^verbatim>\<open>undefined\<close>
  (\<open>Some None\<close>), see \<open>createAiTools\<close>. \<open>logger\<close> is the output of the logger and of the
  error reporter.
\<close>

record LoadNodesAndCredentials =
  known_nodes :: "string \<rightharpoonup> KnownNode option"
  known_credentials :: "string \<rightharpoonup> KnownCredential"
  loaded_nodes :: "string \<rightharpoonup> LoadedClass"
  loaded_credentials :: "string \<rightharpoonup> LoadedClass"
  types_nodes :: "INodeTypeDescription list"
  types_credentials :: "ICredentialType list"
  loaders :: "(string \<times> DirectoryLoader) list"
  excludeNodes :: "string list option"
  includeNodes :: "string list option"
  logger :: "logEntry list"

text \<open>
  What the file takes from its imports and from the process: \<^verbatim>\<open>path.join\<close>,
  \<^verbatim>\<open>picocolors.red\<close>, \<^verbatim>\<open>NodeHelpers.convertNodeToAiTool\<close> applied to a clone, the loader
  constructors (with the directory and the exclude and include lists) and methods,
  \<^verbatim>\<open>fast-glob\<close> (pattern, cwd, depth), the registered post processors (each returns or
  throws; what they write lies outside this state), the constants and settings, and the
  working directory of the process.
\<close>

record Host =
  path_join :: "string \<Rightarrow> string \<Rightarrow> string"
  red :: "string \<Rightarrow> string"
  convertNodeToAiTool :: "INodeTypeDescription \<Rightarrow> INodeTypeDescription"
  construct :: "loaderClass \<Rightarrow> string \<Rightarrow> string list option \<Rightarrow> string list option \<Rightarrow> error + DirectoryLoader"
  loadAll :: "DirectoryLoader \<Rightarrow> error + DirectoryLoader"
  reset :: "DirectoryLoader \<Rightarrow> DirectoryLoader"
  glob :: "string \<Rightarrow> string \<Rightarrow> nat \<Rightarrow> string list"
  postProcessors :: "(LoadNodesAndCredentials \<Rightarrow> error option) list"
  inTest :: bool
  inE2ETests :: bool
  CLI_DIR :: string
  nodesDownloadDir :: string
  customExtensionDir :: string
  customExtensionEnv :: "string option"
  process_cwd :: string

definition errorMessage :: "error \<Rightarrow> string" where
  "errorMessage e = (case e of TypeError m \<Rightarrow> m | ApplicationError m \<Rightarrow> m | LoaderError m \<Rightarrow> m)"

definition isKnownNode :: "LoadNodesAndCredentials \<Rightarrow> string \<Rightarrow> bool" where
  "isKnownNode st type = (known_nodes st type \<noteq> None)"

section \<open>runDirectoryLoader and its callers\<close>

definition alreadyLoadedMessage :: "string \<Rightarrow> string \<Rightarrow> string" where
  "alreadyLoadedMessage name dir =
     ''nodes package '' @ name @ '' is already loaded.'' @ [CHR 0x0A]
       @ '' Please delete this second copy at path '' @ dir"

text \<open>
  The first component is the loader returned or the error thrown, the second the state
  of the service after the call.
\<close>

definition runDirectoryLoader ::
  "Host \<Rightarrow> loaderClass \<Rightarrow> string \<Rightarrow> LoadNodesAndCredentials
     \<Rightarrow> (error + DirectoryLoader) \<times> LoadNodesAndCredentials" where
  "runDirectoryLoader host cls dir st =
     (case construct host cls dir (excludeNodes st) (includeNodes st) of
        Inl e \<Rightarrow> (Inl e, st)
      | Inr loader \<Rightarrow>
          if map_of (loaders st) (packageName loader) \<noteq> None
          then (Inl (ApplicationError (red host (alreadyLoadedMessage (packageName loader) dir))), st)
          else (case loadAll host loader of
                  Inl e \<Rightarrow> (Inl e, st)
                | Inr loader' \<Rightarrow>
                    (Inr loader',
                     st\<lparr>loaders := AList.update (packageName loader') loader' (loaders st)\<rparr>)))"

text \<open>The loop of \<^verbatim>\<open>loadNodesFromNodeModules\<close>: a throw is logged and reported.\<close>

fun loadInstalledPackages ::
  "Host \<Rightarrow> string \<Rightarrow> string list \<Rightarrow> LoadNodesAndCredentials \<Rightarrow> LoadNodesAndCredentials" where
  "loadInstalledPackages host nodeModulesDir [] st = st"
| "loadInstalledPackages host nodeModulesDir (packagePath # rest) st =
     (case runDirectoryLoader host LazyPackageDirectoryLoader
             (path_join host nodeModulesDir packagePath) st of
        (Inl e, st') \<Rightarrow>
          loadInstalledPackages host nodeModulesDir rest
            (st'\<lparr>logger := logger st' @ [LogError (errorMessage e), Reported e]\<rparr>)
      | (Inr loader, st') \<Rightarrow> loadInstalledPackages host nodeModulesDir rest st')"

text \<open>\<^verbatim>\<open>packageName ? ... : ...\<close>: an absent or empty name selects the two patterns.\<close>

definition loadNodesFromNodeModules ::
  "Host \<Rightarrow> string \<Rightarrow> string option \<Rightarrow> LoadNodesAndCredentials \<Rightarrow> LoadNodesAndCredentials" where
  "loadNodesFromNodeModules host nodeModulesDir name st =
     (let installedPackagePaths =
            (if name \<noteq> None \<and> name \<noteq> Some []
             then glob host (the name) nodeModulesDir 1
             else glob host ''n8n-nodes-*'' nodeModulesDir 1
                    @ glob host ''@*/n8n-nodes-*'' nodeModulesDir 2)
      in loadInstalledPackages host nodeModulesDir installedPackagePaths st)"

fun splitOn :: "char \<Rightarrow> string \<Rightarrow> string list" where
  "splitOn sep [] = [[]]"
| "splitOn sep (c # cs) =
     (if c = sep then [] # splitOn sep cs
      else (case splitOn sep cs of
              [] \<Rightarrow> [[c]]
            | s # ss \<Rightarrow> (c # s) # ss))"

fun joinWith :: "string \<Rightarrow> string list \<Rightarrow> string" where
  "joinWith sep [] = []"
| "joinWith sep [s] = s"
| "joinWith sep (s # t # ss) = s @ sep @ joinWith sep (t # ss)"

definition getCustomDirectories :: "Host \<Rightarrow> string list" where
  "getCustomDirectories host =
     (case customExtensionEnv host of
        None \<Rightarrow> [customExtensionDir host]
      | Some folders \<Rightarrow> customExtensionDir host # splitOn (CHR '';'') folders)"

text \<open>The loop over the custom directories; a throw ends it.\<close>

fun loadCustomDirectories ::
  "Host \<Rightarrow> string list \<Rightarrow> LoadNodesAndCredentials \<Rightarrow> error option \<times> LoadNodesAndCredentials" where
  "loadCustomDirectories host [] st = (None, st)"
| "loadCustomDirectories host (dir # rest) st =
     (case runDirectoryLoader host CustomDirectoryLoader dir st of
        (Inl e, st') \<Rightarrow> (Some e, st')
      | (Inr loader, st') \<Rightarrow> loadCustomDirectories host rest st')"

definition loadNodesFromCustomDirectories ::
  "Host \<Rightarrow> LoadNodesAndCredentials \<Rightarrow> error option \<times> LoadNodesAndCredentials" where
  "loadNodesFromCustomDirectories host st = loadCustomDirectories host (getCustomDirectories host) st"

definition loadPackage ::
  "Host \<Rightarrow> string \<Rightarrow> LoadNodesAndCredentials
     \<Rightarrow> (error + DirectoryLoader) \<times> LoadNodesAndCredentials" where
  "loadPackage host name st =
     (let finalNodeUnpackedPath =
            path_join host (path_join host (nodesDownloadDir host) ''node_modules'') name
      in runDirectoryLoader host PackageDirectoryLoader finalNodeUnpackedPath st)"

text \<open>
  \<^verbatim>\<open>reset()\<close> acts on the loader that is then deleted, so only the deletion shows in
  the state.
\<close>

definition unloadPackage :: "Host \<Rightarrow> string \<Rightarrow> LoadNodesAndCredentials \<Rightarrow> LoadNodesAndCredentials" where
  "unloadPackage host name st =
     (if map_of (loaders st) name \<noteq> None
      then st\<lparr>loaders := AList.delete name (loaders st)\<rparr>
      else st)"

section \<open>createAiTools\<close>

text \<open>
  One turn of the loop over the usable nodes. \<open>wrapped\<close> is the converted clone. The
  known entry of the original is copied under the new name; when the original has no
  known entry the new key holds \<^verbatim>\<open>undefined\<close>. Every known credential whose
  \<^verbatim>\<open>supportedNodes\<close> includes the original name gets the new name pushed.
\<close>

definition pushSupportedNode :: "string \<Rightarrow> string \<Rightarrow> KnownCredential \<Rightarrow> KnownCredential" where
  "pushSupportedNode usableName wrappedName credential =
     (case kc_supportedNodes credential of
        None \<Rightarrow> credential
      | Some supported \<Rightarrow>
          if usableName \<in> set supported
          then credential\<lparr>kc_supportedNodes := Some (supported @ [wrappedName])\<rparr>
          else credential)"

definition addAiTool ::
  "(INodeTypeDescription \<Rightarrow> INodeTypeDescription) \<Rightarrow> LoadNodesAndCredentials
     \<Rightarrow> INodeTypeDescription \<Rightarrow> LoadNodesAndCredentials" where
  "addAiTool convert st usableNode =
     (let wrapped = convert usableNode in
      st\<lparr>types_nodes := types_nodes st @ [wrapped],
         known_nodes := (known_nodes st)(node_name wrapped \<mapsto>
                          (case known_nodes st (node_name usableNode) of
                             None \<Rightarrow> None
                           | Some entry \<Rightarrow> entry)),
         known_credentials :=
           (\<lambda>credentialName.
              map_option (pushSupportedNode (node_name usableNode) (node_name wrapped))
                (known_credentials st credentialName))\<rparr>)"

definition createAiTools ::
  "(INodeTypeDescription \<Rightarrow> INodeTypeDescription) \<Rightarrow> LoadNodesAndCredentials \<Rightarrow> LoadNodesAndCredentials" where
  "createAiTools convert st =
     (let usableNodes = filter (\<lambda>nodetype. usableAsTool nodetype = True) (types_nodes st)
      in foldl (addAiTool convert) st usableNodes)"

section \<open>postProcessLoaders\<close>

definition qualifyKnownNode :: "(string \<Rightarrow> string \<Rightarrow> string) \<Rightarrow> DirectoryLoader \<Rightarrow> KnownNode \<Rightarrow> KnownNode" where
  "qualifyKnownNode join loader entry =
     \<lparr>kn_className = kn_className entry,
      kn_sourcePath = join (directory loader) (kn_sourcePath entry)\<rparr>"

definition qualifyKnownCredential ::
  "(string \<Rightarrow> string \<Rightarrow> string) \<Rightarrow> DirectoryLoader \<Rightarrow> KnownCredential \<Rightarrow> KnownCredential" where
  "qualifyKnownCredential join loader entry =
     \<lparr>kc_className = kc_className entry,
      kc_sourcePath = join (directory loader) (kc_sourcePath entry),
      kc_supportedNodes =
        (if instanceofPackageDirectoryLoader loader
         then map_option (map (\<lambda>nodeName. packageName loader @ ''.'' @ nodeName))
                (kc_supportedNodes entry)
         else None),
      kc_extends = kc_extends entry\<rparr>"

text \<open>The body of the loop over \<^verbatim>\<open>Object.values(this.loaders)\<close>.\<close>

definition mergeLoader ::
  "(string \<Rightarrow> string \<Rightarrow> string) \<Rightarrow> LoadNodesAndCredentials \<Rightarrow> DirectoryLoader \<Rightarrow> LoadNodesAndCredentials" where
  "mergeLoader join st loader =
     st\<lparr>types_nodes := types_nodes st @ loader_types_nodes loader,
        types_credentials := types_credentials st @ loader_types_credentials loader,
        loaded_nodes := loaded_nodes st ++ nodeTypes loader,
        loaded_credentials := loaded_credentials st ++ credentialTypes loader,
        known_nodes := known_nodes st ++
          (\<lambda>type. map_option (\<lambda>entry. Some (qualifyKnownNode join loader entry))
                     (loader_known_nodes loader type)),
        known_credentials := known_credentials st ++
          (\<lambda>type. map_option (qualifyKnownCredential join loader)
                     (loader_known_credentials loader type))\<rparr>"

definition clearAggregates :: "LoadNodesAndCredentials \<Rightarrow> LoadNodesAndCredentials" where
  "clearAggregates st =
     st\<lparr>known_nodes := Map.empty, known_credentials := Map.empty,
        loaded_nodes := Map.empty, loaded_credentials := Map.empty,
        types_nodes := [], types_credentials := []\<rparr>"

text \<open>The state after the loop over the loaders, before the derivation.\<close>

definition mergeLoaders :: "Host \<Rightarrow> LoadNodesAndCredentials \<Rightarrow> LoadNodesAndCredentials" where
  "mergeLoaders host st =
     foldl (mergeLoader (path_join host)) (clearAggregates st) (map snd (loaders st))"

fun runPostProcessors ::
  "(LoadNodesAndCredentials \<Rightarrow> error option) list \<Rightarrow> LoadNodesAndCredentials
     \<Rightarrow> error + LoadNodesAndCredentials" where
  "runPostProcessors [] st = Inr st"
| "runPostProcessors (postProcessor # rest) st =
     (case postProcessor st of
        Some e \<Rightarrow> Inl e
      | None \<Rightarrow> runPostProcessors rest st)"

text \<open>
  \<^verbatim>\<open>createAiTools\<close> followed by \<^verbatim>\<open>injectCustomApiCallOptions\<close> on the state; the
  warnings go to the logger.
\<close>

definition derivationPass :: "Host \<Rightarrow> LoadNodesAndCredentials \<Rightarrow> error + LoadNodesAndCredentials" where
  "derivationPass host st =
     (let st' = createAiTools (convertNodeToAiTool host) st in
      case injectCustomApiCallOptions (types_credentials st') (types_nodes st') of
        Inl e \<Rightarrow> Inl e
      | Inr (nodes, warns) \<Rightarrow>
          Inr (st'\<lparr>types_nodes := nodes, logger := logger st' @ map LogWarn warns\<rparr>))"

text \<open>
  An \<open>Inl\<close> result is a throw out of the rebuild; the half-built state the service is
  left in is not part of the result.
\<close>

definition postProcessLoaders :: "Host \<Rightarrow> LoadNodesAndCredentials \<Rightarrow> error + LoadNodesAndCredentials" where
  "postProcessLoaders host st =
     (case derivationPass host (mergeLoaders host st) of
        Inl e \<Rightarrow> Inl e
      | Inr st' \<Rightarrow> runPostProcessors (postProcessors host) st')"

section \<open>init\<close>

definition pushE2ETestExclude :: "Host \<Rightarrow> LoadNodesAndCredentials \<Rightarrow> LoadNodesAndCredentials" where
  "pushE2ETestExclude host st =
     (if \<not> inE2ETests host
      then st\<lparr>excludeNodes :=
              Some ((case excludeNodes st of None \<Rightarrow> [] | Some ex \<Rightarrow> ex) @ [''n8n-nodes-base.e2eTest''])\<rparr>
      else st)"

definition scanBasePath :: "Host \<Rightarrow> LoadNodesAndCredentials \<Rightarrow> string \<Rightarrow> LoadNodesAndCredentials" where
  "scanBasePath host st nodeModulesDir =
     loadNodesFromNodeModules host nodeModulesDir (Some ''@n8n/n8n-nodes-langchain'')
       (loadNodesFromNodeModules host nodeModulesDir (Some ''n8n-nodes-base'') st)"

text \<open>
  The part of \<^verbatim>\<open>init\<close> that scans the modules directories: the two base paths, then
  the download directory. The assignment of \<^verbatim>\<open>NODE_PATH\<close> acts on the process only
  and is left out.
\<close>

definition scanInstalledPackages :: "Host \<Rightarrow> LoadNodesAndCredentials \<Rightarrow> LoadNodesAndCredentials" where
  "scanInstalledPackages host st =
     (let st1 = pushE2ETestExclude host st;
          basePathsToScan = [path_join host (CLI_DIR host) ''..'',
                             path_join host (CLI_DIR host) ''node_modules''];
          st2 = foldl (scanBasePath host) st1 basePathsToScan
      in loadNodesFromNodeModules host
           (path_join host (nodesDownloadDir host) ''node_modules'') None st2)"

text \<open>An \<open>Inl\<close> result is a throw out of \<^verbatim>\<open>init\<close>.\<close>

definition init :: "Host \<Rightarrow> LoadNodesAndCredentials \<Rightarrow> error + LoadNodesAndCredentials" where
  "init host st =
     (if inTest host then Inl (ApplicationError ''Not available in tests'')
      else
        (case loadNodesFromCustomDirectories host (scanInstalledPackages host st) of
           (Some e, st') \<Rightarrow> Inl e
         | (None, st') \<Rightarrow> postProcessLoaders host st'))"

section \<open>resolveIcon\<close>





definition pathSegments :: "string \<Rightarrow> string list" where
  "pathSegments p = filter (\<lambda>seg. seg \<noteq> []) (splitOn (CHR ''/'') p)"




section \<open>The scenario of the spec\<close>

text \<open>
  The credential \<open>BarApi\<close>, which extends \<open>oAuth2Api\<close>, and the node \<open>Foo\<close>, usable as a
  tool, at its latest version, with one \<open>resource\<close> parameter whose options are given.
\<close>

definition BarApi :: ICredentialType where
  "BarApi = \<lparr>cred_name = ''BarApi'', extends = Some [''oAuth2Api''], authenticate = None\<rparr>"

definition Foo :: "INodePropertyOptions list option \<Rightarrow> INodeTypeDescription" where
  "Foo opts =
     \<lparr>node_name = ''Foo'', version = VersionNumber 1, defaultVersion = None, usableAsTool = True,
      properties = [\<lparr>prop_name = ''resource'', prop_options = opts\<rparr>],
      credentials = Some [''BarApi'']\<rparr>"

definition getOption :: INodePropertyOptions where
  "getOption = \<lparr>opt_name = ''Get'', opt_value = ''get''\<rparr>"

text \<open>
  \<open>BazApi\<close> extends \<open>BarApi\<close> and so reaches \<open>oAuth2Api\<close> in two steps; the node \<open>Qux\<close>
  refers to it. \<open>namedLikeCustomOption\<close> carries the name of the synthetic option and a
  value of its own.
\<close>

definition BazApi :: ICredentialType where
  "BazApi = \<lparr>cred_name = ''BazApi'', extends = Some [''BarApi''], authenticate = None\<rparr>"

definition Qux :: "INodePropertyOptions list option \<Rightarrow> INodeTypeDescription" where
  "Qux opts =
     \<lparr>node_name = ''Qux'', version = VersionNumber 1, defaultVersion = None, usableAsTool = False,
      properties = [\<lparr>prop_name = ''operation'', prop_options = opts\<rparr>],
      credentials = Some [''BazApi'']\<rparr>"

definition namedLikeCustomOption :: INodePropertyOptions where
  "namedLikeCustomOption = \<lparr>opt_name = CUSTOM_API_CALL_NAME, opt_value = ''https://example.com''\<rparr>"

text \<open>
  The package \<open>alpha\<close>, loaded eagerly, declares \<open>Foo\<close>; the package \<open>beta\<close>, loaded from
  its manifest, declares \<open>BarApi\<close> with \<open>Foo\<close> among its supported nodes.
\<close>

definition emptyLoader :: "loaderClass \<Rightarrow> string \<Rightarrow> string \<Rightarrow> DirectoryLoader" where
  "emptyLoader cls name dir =
     \<lparr>loaderClass = cls, packageName = name, directory = dir, isLazyLoaded = False,
      loader_known_nodes = Map.empty, loader_known_credentials = Map.empty,
      loader_types_nodes = [], loader_types_credentials = [],
      nodeTypes = Map.empty, credentialTypes = Map.empty\<rparr>"

definition alphaLoader :: DirectoryLoader where
  "alphaLoader =
     (emptyLoader PackageDirectoryLoader ''alpha'' ''/nodes/alpha'')
       \<lparr>loader_known_nodes :=
          [''Foo'' \<mapsto> \<lparr>kn_className = ''Foo'', kn_sourcePath = ''dist/Foo.node.js''\<rparr>],
        loader_types_nodes := [Foo (Some [getOption])],
        nodeTypes := [''Foo'' \<mapsto> \<lparr>loaded_type = ''Foo'', loaded_sourcePath = ''dist/Foo.node.js''\<rparr>]\<rparr>"

definition betaLoader :: DirectoryLoader where
  "betaLoader =
     (emptyLoader LazyPackageDirectoryLoader ''beta'' ''/nodes/beta'')
       \<lparr>isLazyLoaded := True,
        loader_known_credentials :=
          [''BarApi'' \<mapsto> \<lparr>kc_className = ''BarApi'', kc_sourcePath = ''dist/BarApi.credentials.js'',
                          kc_supportedNodes = Some [''Foo''], kc_extends = Some [''oAuth2Api'']\<rparr>],
        loader_types_credentials := [BarApi]\<rparr>"

definition emptyService :: LoadNodesAndCredentials where
  "emptyService =
     \<lparr>known_nodes = Map.empty, known_credentials = Map.empty,
      loaded_nodes = Map.empty, loaded_credentials = Map.empty,
      types_nodes = [], types_credentials = [], loaders = [],
      excludeNodes = None, includeNodes = None, logger = []\<rparr>"

definition alphaBetaService :: LoadNodesAndCredentials where
  "alphaBetaService = emptyService\<lparr>loaders := [(''alpha'', alphaLoader), (''beta'', betaLoader)]\<rparr>"

text \<open>
  A host in which \<^verbatim>\<open>path.join\<close> puts a slash between its arguments, the conversion to a
  tool appends \<open>Tool\<close> to the name and removes the flag, a package is named after the
  last segment of its directory (a custom directory \<open>CUSTOM\<close>), loading succeeds, and
  only \<open>n8n-nodes-base\<close> is found under a modules directory.
\<close>

definition exampleHost :: Host where
  "exampleHost =
     \<lparr>path_join = (\<lambda>a b. a @ ''/'' @ b),
      red = (\<lambda>s. s),
      convertNodeToAiTool = (\<lambda>d. d\<lparr>node_name := node_name d @ ''Tool'', usableAsTool := False\<rparr>),
      construct = (\<lambda>cls dir exclude include.
         Inr (emptyLoader cls
                (if cls = CustomDirectoryLoader then ''CUSTOM'' else last (splitOn (CHR ''/'') dir)) dir)),
      loadAll = (\<lambda>loader. Inr loader),
      reset = (\<lambda>loader. loader),
      glob = (\<lambda>pattern cwd deep. if pattern = ''n8n-nodes-base'' then [''n8n-nodes-base''] else []),
      postProcessors = [],
      inTest = False, inE2ETests = False,
      CLI_DIR = ''/usr/lib/n8n'', nodesDownloadDir = ''/home/node/.n8n/nodes'',
      customExtensionDir = ''/home/node/.n8n/custom'', customExtensionEnv = None,
      process_cwd = ''/home/node''\<rparr>"

section \<open>The wording of the spec\<close>

text \<open>
  The spec lets a credential support proxy authentication when it declares
  \<^verbatim>\<open>authenticate\<close> or transitively extends a proxy-capable parent, the chain of
  \<^verbatim>\<open>extends\<close> being resolved by name in the aggregate credential list.
\<close>

inductive spec_extendsProxyParent :: "ICredentialType list \<Rightarrow> string \<Rightarrow> bool"
  for creds :: "ICredentialType list" where
  direct: "find (\<lambda>t. cred_name t = name) creds = Some credType \<Longrightarrow>
           extends credType = Some parents \<Longrightarrow> parentType \<in> set parents \<Longrightarrow>
           parentType \<in> set proxyParents \<Longrightarrow> spec_extendsProxyParent creds name"
| chain: "find (\<lambda>t. cred_name t = name) creds = Some credType \<Longrightarrow>
          extends credType = Some parents \<Longrightarrow> parentType \<in> set parents \<Longrightarrow>
          spec_extendsProxyParent creds parentType \<Longrightarrow> spec_extendsProxyParent creds name"

definition spec_supportsProxyAuth :: "ICredentialType list \<Rightarrow> INodeTypeDescription \<Rightarrow> bool" where
  "spec_supportsProxyAuth creds description =
     (\<exists>names. credentials description = Some names \<and>
        (\<exists>name\<in>set names.
           (\<exists>credType. find (\<lambda>t. cred_name t = name) creds = Some credType \<and>
                       authenticate credType \<noteq> None)
           \<or> spec_extendsProxyParent creds name))"

section \<open>Faults of the injection pass\<close>

lemma injectProperty_Inl_iff:
  "(injectProperty p = Inl e) \<longleftrightarrow>
     (isResourceOrOperation p \<and> prop_options p = Some [] \<and>
      e = TypeError ''Cannot read properties of undefined (reading name)'')"
  by (auto simp: injectProperty_def split: option.splits if_splits)

lemma forEachProperty_Inl_iff:
  "(\<exists>e. forEachProperty ps = Inl e) \<longleftrightarrow>
     (\<exists>p\<in>set ps. isResourceOrOperation p \<and> prop_options p = Some [])"
proof (induction ps)
  case Nil
  show ?case by simp
next
  case (Cons p ps)
  show ?case
  proof (cases "injectProperty p")
    case (Inl e)
    then have "isResourceOrOperation p \<and> prop_options p = Some []"
      using injectProperty_Inl_iff [of p e] by simp
    with Inl show ?thesis by simp
  next
    case (Inr p')
    then have "\<not> (isResourceOrOperation p \<and> prop_options p = Some [])"
      using injectProperty_Inl_iff [of p] by auto
    with Inr Cons show ?thesis by (auto split: sum.splits)
  qed
qed

lemma forEachProperty_Inl_TypeError:
  "forEachProperty ps = Inl e \<Longrightarrow> \<exists>msg. e = TypeError msg"
  by (induction ps arbitrary: e) (auto simp: injectProperty_Inl_iff split: sum.splits)

lemma injectNode_Inl_iff:
  "(\<exists>e. injectNode creds node = Inl e) \<longleftrightarrow>
     (isLatestVersion node \<and> fst (supportsProxyAuth creds node) \<and>
      (\<exists>p\<in>set (properties node). isResourceOrOperation p \<and> prop_options p = Some []))"
proof -
  obtain b w where bw: "supportsProxyAuth creds node = (b, w)" by (cases "supportsProxyAuth creds node")
  show ?thesis
    using forEachProperty_Inl_iff [of "properties node"]
    by (cases b; cases "forEachProperty (properties node)") (auto simp: injectNode_def bw)
qed

lemma injectNode_Inl_TypeError:
  "injectNode creds node = Inl e \<Longrightarrow> \<exists>msg. e = TypeError msg"
  by (auto simp: injectNode_def split: if_splits prod.splits bool.splits sum.splits
           dest: forEachProperty_Inl_TypeError)

lemma injectCustomApiCallOptions_Inl_iff:
  "(\<exists>e. injectCustomApiCallOptions creds nodes = Inl e) \<longleftrightarrow>
     (\<exists>node\<in>set nodes. isLatestVersion node \<and> fst (supportsProxyAuth creds node) \<and>
      (\<exists>p\<in>set (properties node). isResourceOrOperation p \<and> prop_options p = Some []))"
proof (induction nodes)
  case Nil
  show ?case by simp
next
  case (Cons node nodes)
  show ?case
  proof (cases "injectNode creds node")
    case (Inl e)
    then show ?thesis using injectNode_Inl_iff [of creds node] by auto
  next
    case (Inr r)
    then have "\<not> (\<exists>e. injectNode creds node = Inl e)" by simp
    then have no: "\<not> (isLatestVersion node \<and> fst (supportsProxyAuth creds node) \<and>
      (\<exists>p\<in>set (properties node). isResourceOrOperation p \<and> prop_options p = Some []))"
      using injectNode_Inl_iff [of creds node] by simp
    obtain n' w where r: "r = (n', w)" by (cases r)
    have "(\<exists>e. injectCustomApiCallOptions creds (node # nodes) = Inl e)
          \<longleftrightarrow> (\<exists>e. injectCustomApiCallOptions creds nodes = Inl e)"
      using Inr r by (auto split: sum.splits)
    with Cons no show ?thesis by auto
  qed
qed

lemma injectCustomApiCallOptions_Inl_TypeError:
  "injectCustomApiCallOptions creds nodes = Inl e \<Longrightarrow> \<exists>msg. e = TypeError msg"
  by (induction nodes arbitrary: e)
     (auto split: sum.splits prod.splits dest: injectNode_Inl_TypeError)

lemma Foo_supports: "supportsProxyAuth [BarApi] (Foo opts) = (True, [])"
  by (simp add: supportsProxyAuth_def Foo_def BarApi_def proxyAuthCallback_def proxyParents_def)

lemma Foo_latest: "isLatestVersion (Foo opts)"
  by (simp add: isLatestVersion_def Foo_def)

text \<open>
  C10. The injection pass reads the last option of a \<open>resource\<close> or \<open>operation\<close> parameter
  without a guard for the empty array: the pass throws exactly when some latest-version
  node that supports proxy authentication has such a parameter with an empty options
  array, and what it throws is then a \<^verbatim>\<open>TypeError\<close>; it does not skip the parameter.
\<close>

theorem injection_faults_iff_empty_options:
  "((\<exists>e. injectCustomApiCallOptions creds nodes = Inl e) \<longleftrightarrow>
      (\<exists>node\<in>set nodes. isLatestVersion node \<and> fst (supportsProxyAuth creds node) \<and>
         (\<exists>p\<in>set (properties node). isResourceOrOperation p \<and> prop_options p = Some []))) \<and>
   (\<forall>e. injectCustomApiCallOptions creds nodes = Inl e \<longrightarrow> (\<exists>msg. e = TypeError msg))"
  using injectCustomApiCallOptions_Inl_iff [of creds nodes]
    injectCustomApiCallOptions_Inl_TypeError [of creds nodes]
  by blast

theorem injection_faults_iff_empty_options_witness:
  "(\<exists>e. injectCustomApiCallOptions [BarApi] [Foo (Some [])] = Inl e) \<and>
   \<not> (\<exists>e. injectCustomApiCallOptions [BarApi] [Foo (Some [getOption])] = Inl e)"
proof -
  have a: "\<exists>node\<in>set [Foo (Some [])]. isLatestVersion node \<and> fst (supportsProxyAuth [BarApi] node) \<and>
         (\<exists>p\<in>set (properties node). isResourceOrOperation p \<and> prop_options p = Some [])"
    by (simp add: Foo_supports Foo_latest) (simp add: Foo_def isResourceOrOperation_def)
  have b: "\<not> (\<exists>node\<in>set [Foo (Some [getOption])]. isLatestVersion node \<and> fst (supportsProxyAuth [BarApi] node) \<and>
         (\<exists>p\<in>set (properties node). isResourceOrOperation p \<and> prop_options p = Some []))"
    by (simp add: Foo_def)
  from a b show ?thesis
    using injection_faults_iff_empty_options [of "[BarApi]" "[Foo (Some [])]"]
      injection_faults_iff_empty_options [of "[BarApi]" "[Foo (Some [getOption])]"]
    by blast
qed

section \<open>Properties of the injection pass\<close>

lemma proxyAuthCallback_fst:
  "fst (proxyAuthCallback creds nodeName name) \<longleftrightarrow>
     (\<exists>credType. find (\<lambda>t. cred_name t = name) creds = Some credType \<and>
        (authenticate credType \<noteq> None \<or>
         (\<exists>parents. extends credType = Some parents \<and>
            (\<exists>parentType\<in>set parents. parentType \<in> set proxyParents))))"
  by (auto simp: proxyAuthCallback_def list_ex_iff split: option.splits)

lemma proxyAuthCallback_fst_nodeName:
  "fst (proxyAuthCallback creds nodeName name) = fst (proxyAuthCallback creds nodeName' name)"
  by (simp add: proxyAuthCallback_fst)

lemma proxyAuthCallback_snd:
  "snd (proxyAuthCallback creds nodeName name) =
     (if find (\<lambda>t. cred_name t = name) creds = None
      then [unknownCredentialWarning nodeName name] else [])"
  by (auto simp: proxyAuthCallback_def split: option.splits)

lemma proxyAuthCallback_True_snd:
  "fst (proxyAuthCallback creds nodeName name) \<Longrightarrow> snd (proxyAuthCallback creds nodeName name) = []"
  by (auto simp: proxyAuthCallback_def split: option.splits)

lemma someCredential_fst:
  "fst (someCredential creds nodeName names) \<longleftrightarrow>
     (\<exists>name\<in>set names. fst (proxyAuthCallback creds nodeName name))"
proof (induction names)
  case Nil
  show ?case by simp
next
  case (Cons name names)
  obtain b w where c: "proxyAuthCallback creds nodeName name = (b, w)"
    by (cases "proxyAuthCallback creds nodeName name")
  obtain r w' where r: "someCredential creds nodeName names = (r, w')"
    by (cases "someCredential creds nodeName names")
  from Cons c r show ?case by (cases b) auto
qed

lemma someCredential_snd:
  "snd (someCredential creds nodeName names) =
     map (unknownCredentialWarning nodeName)
       (filter (\<lambda>name. find (\<lambda>t. cred_name t = name) creds = None)
          (takeWhile (\<lambda>name. \<not> fst (proxyAuthCallback creds nodeName name)) names))"
proof (induction names)
  case Nil
  show ?case by simp
next
  case (Cons name names)
  obtain b w where c: "proxyAuthCallback creds nodeName name = (b, w)"
    by (cases "proxyAuthCallback creds nodeName name")
  obtain r w' where r: "someCredential creds nodeName names = (r, w')"
    by (cases "someCredential creds nodeName names")
  show ?case
  proof (cases b)
    case True
    with c have "fst (proxyAuthCallback creds nodeName name)" by simp
    with c True show ?thesis
      using proxyAuthCallback_True_snd [of creds nodeName name] by simp
  next
    case False
    with c have f: "\<not> fst (proxyAuthCallback creds nodeName name)" by simp
    from c have "w = snd (proxyAuthCallback creds nodeName name)" by simp
    then have w: "w = (if find (\<lambda>t. cred_name t = name) creds = None
      then [unknownCredentialWarning nodeName name] else [])"
      by (simp only: proxyAuthCallback_snd)
    from Cons r have "w' = map (unknownCredentialWarning nodeName)
       (filter (\<lambda>name. find (\<lambda>t. cred_name t = name) creds = None)
          (takeWhile (\<lambda>name. \<not> fst (proxyAuthCallback creds nodeName name)) names))" by simp
    with c r False f w show ?thesis by simp
  qed
qed

lemma injectProperty_Inr:
  "injectProperty p = Inr p' \<Longrightarrow>
     p' = (if isResourceOrOperation p then
             (case prop_options p of
                None \<Rightarrow> p
              | Some opts \<Rightarrow>
                  if opt_name (last opts) = CUSTOM_API_CALL_NAME then p
                  else p\<lparr>prop_options := Some (opts @ [customApiCallOption])\<rparr>)
           else p)"
  by (auto simp: injectProperty_def split: option.splits if_splits)

lemma injectProperty_nonempty:
  "injectProperty p = Inr p' \<Longrightarrow> isResourceOrOperation p \<Longrightarrow> prop_options p = Some opts \<Longrightarrow>
     opts \<noteq> []"
  by (auto simp: injectProperty_def split: option.splits if_splits)

lemma injectProperty_ends:
  "injectProperty p = Inr p' \<Longrightarrow> isResourceOrOperation p \<Longrightarrow> prop_options p = Some opts \<Longrightarrow>
     \<exists>opts'. prop_options p' = Some opts' \<and> opts' \<noteq> [] \<and> opt_name (last opts') = CUSTOM_API_CALL_NAME"
  by (auto simp: injectProperty_def customApiCallOption_def split: option.splits if_splits)

lemma injectProperty_idem:
  "injectProperty p = Inr p' \<Longrightarrow> injectProperty p' = Inr p'"
  by (auto simp: injectProperty_def customApiCallOption_def isResourceOrOperation_def
           split: option.splits if_splits)

lemma forEachProperty_all2:
  "forEachProperty ps = Inr ps' \<Longrightarrow> list_all2 (\<lambda>p p'. injectProperty p = Inr p') ps ps'"
  by (induction ps arbitrary: ps') (auto split: sum.splits)

lemma forEachProperty_idem:
  "forEachProperty ps = Inr ps' \<Longrightarrow> forEachProperty ps' = Inr ps'"
  by (induction ps arbitrary: ps') (auto split: sum.splits dest: injectProperty_idem)

lemma supportsProxyAuth_properties:
  "supportsProxyAuth creds (node\<lparr>properties := ps\<rparr>) = supportsProxyAuth creds node"
  by (simp add: supportsProxyAuth_def split: option.splits)

lemma isLatestVersion_properties:
  "isLatestVersion (node\<lparr>properties := ps\<rparr>) = isLatestVersion node"
  by (simp add: isLatestVersion_def split: nodeVersion.splits)

lemma injectNode_idem:
  "injectNode creds node = Inr (node', w) \<Longrightarrow> injectNode creds node' = Inr (node', w)"
  by (auto simp: injectNode_def supportsProxyAuth_properties isLatestVersion_properties
           split: if_splits prod.splits bool.splits sum.splits dest: forEachProperty_idem)

lemma injectCustomApiCallOptions_idem:
  "injectCustomApiCallOptions creds nodes = Inr (nodes', w) \<Longrightarrow>
     injectCustomApiCallOptions creds nodes' = Inr (nodes', w)"
proof (induction nodes arbitrary: nodes' w)
  case Nil
  then show ?case by simp
next
  case (Cons node nodes)
  from Cons.prems obtain n1 w1 ns1 w2 where
    a: "injectNode creds node = Inr (n1, w1)" and
    b: "injectCustomApiCallOptions creds nodes = Inr (ns1, w2)" and
    c: "nodes' = n1 # ns1" "w = w1 @ w2"
    by (auto split: sum.splits prod.splits)
  from injectNode_idem [OF a] Cons.IH [OF b] c show ?case by simp
qed

lemma injectCustomApiCallOptions_all2:
  "injectCustomApiCallOptions creds nodes = Inr (nodes', w) \<Longrightarrow>
     list_all2 (\<lambda>node node'. \<exists>w'. injectNode creds node = Inr (node', w')) nodes nodes'"
proof (induction nodes arbitrary: nodes' w)
  case Nil
  then show ?case by simp
next
  case (Cons node nodes)
  from Cons.prems obtain n1 w1 ns1 w2 where
    a: "injectNode creds node = Inr (n1, w1)" and
    b: "injectCustomApiCallOptions creds nodes = Inr (ns1, w2)" and
    c: "nodes' = n1 # ns1" "w = w1 @ w2"
    by (auto split: sum.splits prod.splits)
  from a Cons.IH [OF b] c show ?case by auto
qed

lemma injectNode_supported:
  "injectNode creds node = Inr (node', w) \<Longrightarrow> isLatestVersion node \<Longrightarrow>
   fst (supportsProxyAuth creds node) \<Longrightarrow>
     node' = node\<lparr>properties := properties node'\<rparr> \<and>
     forEachProperty (properties node) = Inr (properties node')"
  by (auto simp: injectNode_def split: if_splits prod.splits bool.splits sum.splits)

lemma injectNode_unsupported:
  "injectNode creds node = Inr (node', w) \<Longrightarrow>
   \<not> (isLatestVersion node \<and> fst (supportsProxyAuth creds node)) \<Longrightarrow> node' = node"
  by (auto simp: injectNode_def split: if_splits prod.splits bool.splits sum.splits)

lemma createAiTools_types_foldl:
  "types_nodes (foldl (addAiTool convert) st us) = types_nodes st @ map convert us"
  by (induction us arbitrary: st) (simp_all add: addAiTool_def Let_def)

lemma createAiTools_types:
  "types_nodes (createAiTools convert st) =
     types_nodes st @ map convert (filter (\<lambda>nodetype. usableAsTool nodetype = True) (types_nodes st))"
  by (simp add: createAiTools_def createAiTools_types_foldl)

lemma createAiTools_types_credentials_foldl:
  "types_credentials (foldl (addAiTool convert) st us) = types_credentials st"
  by (induction us arbitrary: st) (simp_all add: addAiTool_def Let_def)

lemma createAiTools_logger_foldl:
  "logger (foldl (addAiTool convert) st us) = logger st"
  by (induction us arbitrary: st) (simp_all add: addAiTool_def Let_def)

text \<open>
  C2, as amended. The custom-call injection is idempotent: when the pass returns, a
  second run over its result returns the same descriptions and warnings, so no option is
  injected twice. The tool derivation is not: every run of \<open>createAiTools\<close> appends one
  converted clone for each description flagged \<open>usableAsTool\<close>, with no check for a
  clone that is already there.
\<close>

theorem injection_idempotent_tool_derivation_appends:
  "(\<forall>nodes' warns. injectCustomApiCallOptions creds nodes = Inr (nodes', warns) \<longrightarrow>
      injectCustomApiCallOptions creds nodes' = Inr (nodes', warns)) \<and>
   types_nodes (createAiTools convert st) =
     types_nodes st @ map convert (filter (\<lambda>nodetype. usableAsTool nodetype = True) (types_nodes st))"
  using injectCustomApiCallOptions_idem [of creds nodes] createAiTools_types [of convert st]
  by blast

lemma Foo_inject_get:
  "injectCustomApiCallOptions [BarApi] [Foo (Some [getOption])] =
     Inr ([Foo (Some [getOption, customApiCallOption])], [])"
  by (simp add: injectNode_def Foo_supports Foo_latest)
     (simp add: Foo_def injectProperty_def isResourceOrOperation_def getOption_def
        CUSTOM_API_CALL_NAME_def)

lemma Foo_inject_custom:
  "injectCustomApiCallOptions [BarApi] [Foo (Some [getOption, customApiCallOption])] =
     Inr ([Foo (Some [getOption, customApiCallOption])], [])"
  by (simp add: injectNode_def Foo_supports Foo_latest)
     (simp add: Foo_def injectProperty_def isResourceOrOperation_def customApiCallOption_def)

theorem injection_idempotent_tool_derivation_appends_witness:
  "injectCustomApiCallOptions [BarApi] [Foo (Some [getOption])] =
     Inr ([Foo (Some [getOption, customApiCallOption])], []) \<and>
   injectCustomApiCallOptions [BarApi] [Foo (Some [getOption, customApiCallOption])] =
     Inr ([Foo (Some [getOption, customApiCallOption])], []) \<and>
   map node_name (types_nodes (createAiTools (convertNodeToAiTool exampleHost)
       (emptyService\<lparr>types_nodes := [Foo (Some [getOption])]\<rparr>))) = [''Foo'', ''FooTool'']"
proof -
  have "map node_name (types_nodes (emptyService\<lparr>types_nodes := [Foo (Some [getOption])]\<rparr>) @
      map (convertNodeToAiTool exampleHost) (filter (\<lambda>nodetype. usableAsTool nodetype = True)
        (types_nodes (emptyService\<lparr>types_nodes := [Foo (Some [getOption])]\<rparr>)))) = [''Foo'', ''FooTool'']"
    by (simp add: Foo_def exampleHost_def)
  with Foo_inject_get show ?thesis
    using injection_idempotent_tool_derivation_appends
      [of "[BarApi]" "[Foo (Some [getOption])]" "convertNodeToAiTool exampleHost"
          "emptyService\<lparr>types_nodes := [Foo (Some [getOption])]\<rparr>"]
    by simp
qed

text \<open>
  C1, as amended. A node supports proxy authentication exactly when one of its
  credential names resolves in the aggregate credential list to a type that declares
  \<^verbatim>\<open>authenticate\<close> or whose own \<^verbatim>\<open>extends\<close> list contains \<open>oAuth2Api\<close>,
  \<open>googleOAuth2Api\<close> or \<open>oAuth1Api\<close>; parents are not looked up. The warnings are those
  for the unresolved credential names met before the first proxy-capable one, and an
  unresolved name is never an error. For a latest-version node on which the injection
  returns, a \<open>resource\<close> or \<open>operation\<close> parameter whose last option is not named like the
  synthetic one gets the synthetic option exactly when the node supports proxy
  authentication.
\<close>

theorem custom_call_added_iff_direct_proxy_credential:
  "(fst (supportsProxyAuth creds node) \<longleftrightarrow>
      (\<exists>names. credentials node = Some names \<and>
         (\<exists>name\<in>set names. \<exists>credType.
            find (\<lambda>t. cred_name t = name) creds = Some credType \<and>
            (authenticate credType \<noteq> None \<or>
             (\<exists>parents. extends credType = Some parents \<and>
                (\<exists>parentType\<in>set parents. parentType \<in> set proxyParents)))))) \<and>
   (\<forall>names. credentials node = Some names \<longrightarrow>
      snd (supportsProxyAuth creds node) =
        map (unknownCredentialWarning (node_name node))
          (filter (\<lambda>name. find (\<lambda>t. cred_name t = name) creds = None)
             (takeWhile (\<lambda>name. \<not> fst (proxyAuthCallback creds (node_name node) name)) names))) \<and>
   (\<forall>node' warns. isLatestVersion node \<and> injectNode creds node = Inr (node', warns) \<longrightarrow>
      warns = snd (supportsProxyAuth creds node) \<and>
      length (properties node') = length (properties node) \<and>
      (\<forall>j opts. j < length (properties node) \<and> isResourceOrOperation (properties node ! j) \<and>
          prop_options (properties node ! j) = Some opts \<and>
          opt_name (last opts) \<noteq> CUSTOM_API_CALL_NAME \<longrightarrow>
          (prop_options (properties node' ! j) = Some (opts @ [customApiCallOption])
             \<longleftrightarrow> fst (supportsProxyAuth creds node))))"
proof (intro conjI allI impI)
  show "fst (supportsProxyAuth creds node) \<longleftrightarrow>
      (\<exists>names. credentials node = Some names \<and>
         (\<exists>name\<in>set names. \<exists>credType.
            find (\<lambda>t. cred_name t = name) creds = Some credType \<and>
            (authenticate credType \<noteq> None \<or>
             (\<exists>parents. extends credType = Some parents \<and>
                (\<exists>parentType\<in>set parents. parentType \<in> set proxyParents)))))"
    by (cases "credentials node")
       (simp_all add: supportsProxyAuth_def someCredential_fst proxyAuthCallback_fst)
next
  fix names assume "credentials node = Some names"
  then show "snd (supportsProxyAuth creds node) =
        map (unknownCredentialWarning (node_name node))
          (filter (\<lambda>name. find (\<lambda>t. cred_name t = name) creds = None)
             (takeWhile (\<lambda>name. \<not> fst (proxyAuthCallback creds (node_name node) name)) names))"
    by (simp add: supportsProxyAuth_def someCredential_snd)
next
  fix node' warns
  assume a: "isLatestVersion node \<and> injectNode creds node = Inr (node', warns)"
  then show "warns = snd (supportsProxyAuth creds node)"
    by (auto simp: injectNode_def split: if_splits prod.splits bool.splits sum.splits)
  show len: "length (properties node') = length (properties node)"
  proof (cases "fst (supportsProxyAuth creds node)")
    case True
    with a injectNode_supported [of creds node node' warns]
    have "forEachProperty (properties node) = Inr (properties node')" by simp
    from forEachProperty_all2 [OF this] show ?thesis by (simp add: list_all2_lengthD)
  next
    case False
    with a injectNode_unsupported [of creds node node' warns] show ?thesis by simp
  qed
  fix j opts
  assume b: "j < length (properties node) \<and> isResourceOrOperation (properties node ! j) \<and>
          prop_options (properties node ! j) = Some opts \<and>
          opt_name (last opts) \<noteq> CUSTOM_API_CALL_NAME"
  show "prop_options (properties node' ! j) = Some (opts @ [customApiCallOption])
             \<longleftrightarrow> fst (supportsProxyAuth creds node)"
  proof (cases "fst (supportsProxyAuth creds node)")
    case True
    with a injectNode_supported [of creds node node' warns]
    have "forEachProperty (properties node) = Inr (properties node')" by simp
    from forEachProperty_all2 [OF this] b
    have "injectProperty (properties node ! j) = Inr (properties node' ! j)"
      by (auto dest: list_all2_nthD)
    from injectProperty_Inr [OF this] b True show ?thesis by simp
  next
    case False
    with a injectNode_unsupported [of creds node node' warns] have "node' = node" by simp
    with b False show ?thesis by simp
  qed
qed

lemma Foo_injectNode_get:
  "injectNode [BarApi] (Foo (Some [getOption])) = Inr (Foo (Some [getOption, customApiCallOption]), [])"
  by (simp add: injectNode_def Foo_supports Foo_latest)
     (simp add: Foo_def injectProperty_def isResourceOrOperation_def getOption_def
        CUSTOM_API_CALL_NAME_def)

lemma Qux_latest: "isLatestVersion (Qux opts)"
  by (simp add: isLatestVersion_def Qux_def)

lemma Qux_unknown:
  "supportsProxyAuth [] (Qux opts) = (False, [unknownCredentialWarning ''Qux'' ''BazApi''])"
  by (simp add: supportsProxyAuth_def Qux_def proxyAuthCallback_def)

lemma Qux_chain: "supportsProxyAuth [BazApi, BarApi] (Qux opts) = (False, [])"
  by (simp add: supportsProxyAuth_def Qux_def proxyAuthCallback_def BazApi_def BarApi_def
        proxyParents_def)

theorem custom_call_added_iff_direct_proxy_credential_witness:
  "fst (supportsProxyAuth [BarApi] (Foo (Some [getOption]))) \<and>
   prop_options (properties (Foo (Some [getOption, customApiCallOption])) ! 0)
     = Some ([getOption] @ [customApiCallOption]) \<and>
   \<not> fst (supportsProxyAuth [] (Qux (Some [getOption]))) \<and>
   snd (supportsProxyAuth [] (Qux (Some [getOption]))) = [unknownCredentialWarning ''Qux'' ''BazApi''] \<and>
   injectNode [] (Qux (Some [getOption])) =
     Inr (Qux (Some [getOption]), [unknownCredentialWarning ''Qux'' ''BazApi''])"
proof -
  have p: "0 < length (properties (Foo (Some [getOption]))) \<and>
      isResourceOrOperation (properties (Foo (Some [getOption])) ! 0) \<and>
      prop_options (properties (Foo (Some [getOption])) ! 0) = Some [getOption] \<and>
      opt_name (last [getOption]) \<noteq> CUSTOM_API_CALL_NAME"
    by (simp add: Foo_def isResourceOrOperation_def getOption_def CUSTOM_API_CALL_NAME_def)
  have q: "prop_options (properties (Foo (Some [getOption, customApiCallOption])) ! 0)
     = Some ([getOption] @ [customApiCallOption])"
    by (simp add: Foo_def)
  have c: "credentials (Qux (Some [getOption])) = Some [''BazApi'']"
    by (simp add: Qux_def)
  have f: "map (unknownCredentialWarning (node_name (Qux (Some [getOption]))))
          (filter (\<lambda>name. find (\<lambda>t. cred_name t = name) [] = None)
             (takeWhile (\<lambda>name. \<not> fst (proxyAuthCallback [] (node_name (Qux (Some [getOption]))) name))
                [''BazApi''])) = [unknownCredentialWarning ''Qux'' ''BazApi'']"
    by (simp add: Qux_def proxyAuthCallback_def)
  have i: "injectNode [] (Qux (Some [getOption])) =
     Inr (Qux (Some [getOption]), [unknownCredentialWarning ''Qux'' ''BazApi''])"
    by (simp add: injectNode_def Qux_latest Qux_unknown)
  from custom_call_added_iff_direct_proxy_credential [of "[BarApi]" "Foo (Some [getOption])"]
    Foo_latest [of "Some [getOption]"] Foo_injectNode_get p q
  have 1: "fst (supportsProxyAuth [BarApi] (Foo (Some [getOption])))" by blast
  from custom_call_added_iff_direct_proxy_credential [of "[]" "Qux (Some [getOption])"] c f
  have 2: "snd (supportsProxyAuth [] (Qux (Some [getOption]))) = [unknownCredentialWarning ''Qux'' ''BazApi'']"
    by simp
  from custom_call_added_iff_direct_proxy_credential [of "[]" "Qux (Some [getOption])"] c
  have 3: "\<not> fst (supportsProxyAuth [] (Qux (Some [getOption])))"
    by simp
  from 1 2 3 q i show ?thesis by simp
qed

text \<open>
  \<open>BazApi\<close> reaches \<open>oAuth2Api\<close> through \<open>BarApi\<close>, yet \<open>Qux\<close> gets no synthetic option.
\<close>

theorem transitive_extends_counterexample:
  "spec_supportsProxyAuth [BazApi, BarApi] (Qux (Some [getOption])) \<and>
   \<not> fst (supportsProxyAuth [BazApi, BarApi] (Qux (Some [getOption]))) \<and>
   injectCustomApiCallOptions [BazApi, BarApi] [Qux (Some [getOption])]
     = Inr ([Qux (Some [getOption])], [])"
proof -
  have bar: "spec_extendsProxyParent [BazApi, BarApi] ''BarApi''"
    by (rule spec_extendsProxyParent.direct [where credType = BarApi and parents = "[''oAuth2Api'']"
          and parentType = "''oAuth2Api''"])
       (simp_all add: BazApi_def BarApi_def proxyParents_def)
  have baz: "spec_extendsProxyParent [BazApi, BarApi] ''BazApi''"
    by (rule spec_extendsProxyParent.chain [where credType = BazApi and parents = "[''BarApi'']"
          and parentType = "''BarApi''", OF _ _ _ bar])
       (simp_all add: BazApi_def)
  have s: "spec_supportsProxyAuth [BazApi, BarApi] (Qux (Some [getOption]))"
    unfolding spec_supportsProxyAuth_def using baz by (simp add: Qux_def)
  have i: "injectCustomApiCallOptions [BazApi, BarApi] [Qux (Some [getOption])]
     = Inr ([Qux (Some [getOption])], [])"
    by (simp add: injectNode_def Qux_latest Qux_chain)
  from s i show ?thesis by (simp add: Qux_chain)
qed

text \<open>
  C6, as amended. When the injection pass returns, every latest-version node that
  supports proxy authentication keeps all its fields but the properties; each of its
  \<open>resource\<close> or \<open>operation\<close> parameters with an options array had a non-empty array, got
  the synthetic option appended once exactly when the name of its last option was not
  the name of the synthetic option, and now ends with an option of that name. Every
  other parameter and every other node is unchanged.
\<close>

theorem injection_appends_once_by_name:
  "injectCustomApiCallOptions creds nodes = Inr (nodes', warns) \<Longrightarrow>
     list_all2
       (\<lambda>node node'.
          (isLatestVersion node \<and> fst (supportsProxyAuth creds node) \<longrightarrow>
             node' = node\<lparr>properties := properties node'\<rparr> \<and>
             list_all2
               (\<lambda>p p'.
                  (isResourceOrOperation p \<longrightarrow>
                     (\<forall>opts. prop_options p = Some opts \<longrightarrow>
                        opts \<noteq> [] \<and>
                        p' = p\<lparr>prop_options :=
                               Some (if opt_name (last opts) = CUSTOM_API_CALL_NAME then opts
                                     else opts @ [customApiCallOption])\<rparr> \<and>
                        (\<exists>opts'. prop_options p' = Some opts' \<and> opts' \<noteq> [] \<and>
                           opt_name (last opts') = CUSTOM_API_CALL_NAME)) \<and>
                     (prop_options p = None \<longrightarrow> p' = p)) \<and>
                  (\<not> isResourceOrOperation p \<longrightarrow> p' = p))
               (properties node) (properties node')) \<and>
          (\<not> (isLatestVersion node \<and> fst (supportsProxyAuth creds node)) \<longrightarrow> node' = node))
       nodes nodes'"
proof -
  assume a: "injectCustomApiCallOptions creds nodes = Inr (nodes', warns)"
  let ?P = "\<lambda>p p'.
                  (isResourceOrOperation p \<longrightarrow>
                     (\<forall>opts. prop_options p = Some opts \<longrightarrow>
                        opts \<noteq> [] \<and>
                        p' = p\<lparr>prop_options :=
                               Some (if opt_name (last opts) = CUSTOM_API_CALL_NAME then opts
                                     else opts @ [customApiCallOption])\<rparr> \<and>
                        (\<exists>opts'. prop_options p' = Some opts' \<and> opts' \<noteq> [] \<and>
                           opt_name (last opts') = CUSTOM_API_CALL_NAME)) \<and>
                     (prop_options p = None \<longrightarrow> p' = p)) \<and>
                  (\<not> isResourceOrOperation p \<longrightarrow> p' = p)"
  have propstep: "?P p p'" if "injectProperty p = Inr p'" for p p'
  proof (cases "isResourceOrOperation p")
    case False
    with that show ?thesis by (simp add: injectProperty_def)
  next
    case True
    show ?thesis
    proof (cases "prop_options p")
      case None
      with that True show ?thesis by (simp add: injectProperty_def)
    next
      case (Some opts)
      with that True have ne: "opts \<noteq> []"
        by (simp add: injectProperty_def split: if_splits)
      show ?thesis
      proof (cases "opt_name (last opts) = CUSTOM_API_CALL_NAME")
        case eq: True
        with that True Some ne have "p' = p" by (simp add: injectProperty_def)
        with True Some ne eq show ?thesis by simp
      next
        case neq: False
        with that True Some ne
        have "p' = p\<lparr>prop_options := Some (opts @ [customApiCallOption])\<rparr>"
          by (auto simp: injectProperty_def)
        with True Some ne neq show ?thesis by (simp add: customApiCallOption_def)
      qed
    qed
  qed
  have nodestep: "(isLatestVersion node \<and> fst (supportsProxyAuth creds node) \<longrightarrow>
             node' = node\<lparr>properties := properties node'\<rparr> \<and>
             list_all2 ?P (properties node) (properties node')) \<and>
          (\<not> (isLatestVersion node \<and> fst (supportsProxyAuth creds node)) \<longrightarrow> node' = node)"
    if "\<exists>w. injectNode creds node = Inr (node', w)" for node node'
  proof (intro conjI impI)
    assume s: "isLatestVersion node \<and> fst (supportsProxyAuth creds node)"
    from that obtain w where w: "injectNode creds node = Inr (node', w)" by blast
    from injectNode_supported [OF w] s
    have n: "node' = node\<lparr>properties := properties node'\<rparr>"
      and f: "forEachProperty (properties node) = Inr (properties node')" by simp_all
    from n show "node' = node\<lparr>properties := properties node'\<rparr>" .
    from forEachProperty_all2 [OF f]
    show "list_all2 ?P (properties node) (properties node')"
      by (rule list_all2_mono) (rule propstep)
  next
    assume s: "\<not> (isLatestVersion node \<and> fst (supportsProxyAuth creds node))"
    from that obtain w where w: "injectNode creds node = Inr (node', w)" by blast
    from injectNode_unsupported [OF w s] show "node' = node" .
  qed
  from injectCustomApiCallOptions_all2 [OF a]
  show ?thesis
    by (rule list_all2_mono) (rule nodestep)
qed

lemma Foo_inject_named:
  "injectCustomApiCallOptions [BarApi] [Foo (Some [namedLikeCustomOption])] =
     Inr ([Foo (Some [namedLikeCustomOption])], [])"
  by (simp add: injectNode_def Foo_supports Foo_latest)
     (simp add: Foo_def injectProperty_def isResourceOrOperation_def namedLikeCustomOption_def)

theorem injection_appends_once_by_name_witness:
  "injectCustomApiCallOptions [BarApi] [Foo (Some [getOption])] =
     Inr ([Foo (Some [getOption, customApiCallOption])], []) \<and>
   list_all2
       (\<lambda>node node'.
          (isLatestVersion node \<and> fst (supportsProxyAuth [BarApi] node) \<longrightarrow>
             node' = node\<lparr>properties := properties node'\<rparr> \<and>
             list_all2
               (\<lambda>p p'.
                  (isResourceOrOperation p \<longrightarrow>
                     (\<forall>opts. prop_options p = Some opts \<longrightarrow>
                        opts \<noteq> [] \<and>
                        p' = p\<lparr>prop_options :=
                               Some (if opt_name (last opts) = CUSTOM_API_CALL_NAME then opts
                                     else opts @ [customApiCallOption])\<rparr> \<and>
                        (\<exists>opts'. prop_options p' = Some opts' \<and> opts' \<noteq> [] \<and>
                           opt_name (last opts') = CUSTOM_API_CALL_NAME)) \<and>
                     (prop_options p = None \<longrightarrow> p' = p)) \<and>
                  (\<not> isResourceOrOperation p \<longrightarrow> p' = p))
               (properties node) (properties node')) \<and>
          (\<not> (isLatestVersion node \<and> fst (supportsProxyAuth [BarApi] node)) \<longrightarrow> node' = node))
       [Foo (Some [getOption])] [Foo (Some [getOption, customApiCallOption])] \<and>
   isLatestVersion (Foo (Some [getOption])) \<and>
   fst (supportsProxyAuth [BarApi] (Foo (Some [getOption]))) \<and>
   isResourceOrOperation (hd (properties (Foo (Some [getOption])))) \<and>
   prop_options (hd (properties (Foo (Some [getOption])))) = Some [getOption]"
proof -
  have r: "isResourceOrOperation (hd (properties (Foo (Some [getOption])))) \<and>
     prop_options (hd (properties (Foo (Some [getOption])))) = Some [getOption]"
    by (simp add: Foo_def isResourceOrOperation_def)
  have s: "isLatestVersion (Foo (Some [getOption])) \<and>
     fst (supportsProxyAuth [BarApi] (Foo (Some [getOption])))"
    by (simp add: Foo_latest Foo_supports)
  from Foo_inject_get injection_appends_once_by_name [OF Foo_inject_get] s r
  show ?thesis by (intro conjI) simp_all
qed

text \<open>
  An option that has the name of the synthetic option and another value stops the
  injection: the list then does not end with the synthetic option.
\<close>

theorem custom_named_option_counterexample:
  "isLatestVersion (Foo (Some [namedLikeCustomOption])) \<and>
   fst (supportsProxyAuth [BarApi] (Foo (Some [namedLikeCustomOption]))) \<and>
   isResourceOrOperation (hd (properties (Foo (Some [namedLikeCustomOption])))) \<and>
   injectCustomApiCallOptions [BarApi] [Foo (Some [namedLikeCustomOption])] =
     Inr ([Foo (Some [namedLikeCustomOption])], []) \<and>
   prop_options (hd (properties (Foo (Some [namedLikeCustomOption])))) = Some [namedLikeCustomOption] \<and>
   last [namedLikeCustomOption] \<noteq> customApiCallOption"
  using Foo_inject_named
  by (simp add: Foo_latest Foo_supports)
     (simp add: Foo_def isResourceOrOperation_def namedLikeCustomOption_def customApiCallOption_def
        CUSTOM_API_CALL_KEY_def)

lemma derivationPass_Inr:
  "injectCustomApiCallOptions (types_credentials st)
      (types_nodes st @ map (convertNodeToAiTool host)
         (filter (\<lambda>nodetype. usableAsTool nodetype = True) (types_nodes st))) = Inr (nodes, warns) \<Longrightarrow>
   \<exists>st'. derivationPass host st = Inr st' \<and> types_nodes st' = nodes \<and>
         types_credentials st' = types_credentials st"
  by (simp add: derivationPass_def Let_def createAiTools_types)
     (simp add: createAiTools_def createAiTools_types_credentials_foldl)

lemma FooTool_supports:
  "supportsProxyAuth [BarApi] (convertNodeToAiTool exampleHost (Foo opts)) = (True, [])"
  by (simp add: supportsProxyAuth_def Foo_def BarApi_def proxyAuthCallback_def proxyParents_def
        exampleHost_def)

lemma FooTool_latest: "isLatestVersion (convertNodeToAiTool exampleHost (Foo opts))"
  by (simp add: isLatestVersion_def Foo_def exampleHost_def)

lemma FooTool_name: "node_name (convertNodeToAiTool exampleHost (Foo opts)) = ''FooTool''"
  by (simp add: Foo_def exampleHost_def)

lemma FooTool_usable: "\<not> usableAsTool (convertNodeToAiTool exampleHost (Foo opts))"
  by (simp add: Foo_def exampleHost_def)

lemma FooTool_properties:
  "properties (convertNodeToAiTool exampleHost (Foo opts)) = properties (Foo opts)"
  by (simp add: Foo_def exampleHost_def)

lemma Foo_forEach_get:
  "forEachProperty (properties (Foo (Some [getOption]))) =
     Inr (properties (Foo (Some [getOption, customApiCallOption])))"
  by (simp add: Foo_def injectProperty_def isResourceOrOperation_def getOption_def
        CUSTOM_API_CALL_NAME_def)

lemma Foo_forEach_custom:
  "forEachProperty (properties (Foo (Some [getOption, customApiCallOption]))) =
     Inr (properties (Foo (Some [getOption, customApiCallOption])))"
  by (simp add: Foo_def injectProperty_def isResourceOrOperation_def customApiCallOption_def)

lemma FooTool_injectNode:
  "forEachProperty (properties (Foo opts)) = Inr (properties (Foo opts')) \<Longrightarrow>
   injectNode [BarApi] (convertNodeToAiTool exampleHost (Foo opts)) =
     Inr (convertNodeToAiTool exampleHost (Foo opts'), [])"
  by (simp add: injectNode_def FooTool_supports FooTool_latest FooTool_properties)
     (simp add: Foo_def exampleHost_def)

lemma Foo_injectNode:
  "forEachProperty (properties (Foo opts)) = Inr (properties (Foo opts')) \<Longrightarrow>
   injectNode [BarApi] (Foo opts) = Inr (Foo opts', [])"
  by (simp add: injectNode_def Foo_supports Foo_latest) (simp add: Foo_def)

text \<open>
  Running the derivation pass on its own result appends a second tool variant of \<open>Foo\<close>.
\<close>

theorem derivation_pass_twice_counterexample:
  "(case derivationPass exampleHost
           (emptyService\<lparr>types_nodes := [Foo (Some [getOption])], types_credentials := [BarApi]\<rparr>) of
      Inl e \<Rightarrow> []
    | Inr st1 \<Rightarrow> map node_name (types_nodes st1)) = [''Foo'', ''FooTool''] \<and>
   (case derivationPass exampleHost
           (emptyService\<lparr>types_nodes := [Foo (Some [getOption])], types_credentials := [BarApi]\<rparr>) of
      Inl e \<Rightarrow> []
    | Inr st1 \<Rightarrow>
        (case derivationPass exampleHost st1 of
           Inl e \<Rightarrow> []
         | Inr st2 \<Rightarrow> map node_name (types_nodes st2))) = [''Foo'', ''FooTool'', ''FooTool'']"
proof -
  let ?st0 = "emptyService\<lparr>types_nodes := [Foo (Some [getOption])], types_credentials := [BarApi]\<rparr>"
  let ?foo = "Foo (Some [getOption, customApiCallOption])"
  let ?tool = "convertNodeToAiTool exampleHost ?foo"
  have u: "usableAsTool (Foo opts)" for opts by (simp add: Foo_def)
  have "injectCustomApiCallOptions (types_credentials ?st0)
      (types_nodes ?st0 @ map (convertNodeToAiTool exampleHost)
         (filter (\<lambda>nodetype. usableAsTool nodetype = True) (types_nodes ?st0)))
       = Inr ([?foo, ?tool], [])"
    by (simp add: u Foo_injectNode [OF Foo_forEach_get] FooTool_injectNode [OF Foo_forEach_get])
  from derivationPass_Inr [OF this] obtain st1 where
    1: "derivationPass exampleHost ?st0 = Inr st1" "types_nodes st1 = [?foo, ?tool]"
       "types_credentials st1 = [BarApi]" by auto
  have "injectCustomApiCallOptions (types_credentials st1)
      (types_nodes st1 @ map (convertNodeToAiTool exampleHost)
         (filter (\<lambda>nodetype. usableAsTool nodetype = True) (types_nodes st1)))
       = Inr ([?foo, ?tool, ?tool], [])"
    by (simp add: 1 u FooTool_usable Foo_injectNode [OF Foo_forEach_custom]
          FooTool_injectNode [OF Foo_forEach_custom])
  from derivationPass_Inr [OF this] obtain st2 where
    2: "derivationPass exampleHost st1 = Inr st2" "types_nodes st2 = [?foo, ?tool, ?tool]" by auto
  have n: "node_name ?foo = ''Foo''" by (simp add: Foo_def)
  from 1 2 n show ?thesis by (simp add: FooTool_name)
qed

section \<open>The merge of the loaders\<close>

lemma mergeLoader_snoc:
  "foldl (mergeLoader j) st (ls @ [l]) = mergeLoader j (foldl (mergeLoader j) st ls) l"
  by simp

lemma foldl_mergeLoader_known_nodes:
  "known_nodes (foldl (mergeLoader j) st ls) type =
     (case find (\<lambda>loader. loader_known_nodes loader type \<noteq> None) (rev ls) of
        None \<Rightarrow> known_nodes st type
      | Some loader \<Rightarrow>
          map_option (\<lambda>entry. Some (qualifyKnownNode j loader entry))
            (loader_known_nodes loader type))"
proof (induction ls rule: rev_induct)
  case Nil
  show ?case by simp
next
  case (snoc l ls)
  show ?case
  proof (cases "loader_known_nodes l type")
    case None
    with snoc show ?thesis by (simp add: mergeLoader_def map_add_def)
  next
    case (Some e)
    then show ?thesis by (simp add: mergeLoader_def map_add_def)
  qed
qed

lemma foldl_mergeLoader_known_credentials:
  "known_credentials (foldl (mergeLoader j) st ls) type =
     (case find (\<lambda>loader. loader_known_credentials loader type \<noteq> None) (rev ls) of
        None \<Rightarrow> known_credentials st type
      | Some loader \<Rightarrow>
          map_option (qualifyKnownCredential j loader) (loader_known_credentials loader type))"
proof (induction ls rule: rev_induct)
  case Nil
  show ?case by simp
next
  case (snoc l ls)
  show ?case
  proof (cases "loader_known_credentials l type")
    case None
    with snoc show ?thesis by (simp add: mergeLoader_def map_add_def)
  next
    case (Some e)
    then show ?thesis by (simp add: mergeLoader_def map_add_def)
  qed
qed

lemma foldl_mergeLoader_loaded_nodes:
  "loaded_nodes (foldl (mergeLoader j) st ls) type =
     (case find (\<lambda>loader. nodeTypes loader type \<noteq> None) (rev ls) of
        None \<Rightarrow> loaded_nodes st type
      | Some loader \<Rightarrow> nodeTypes loader type)"
proof (induction ls rule: rev_induct)
  case Nil
  show ?case by simp
next
  case (snoc l ls)
  show ?case
  proof (cases "nodeTypes l type")
    case None
    with snoc show ?thesis by (simp add: mergeLoader_def map_add_def)
  next
    case (Some e)
    then show ?thesis by (simp add: mergeLoader_def map_add_def)
  qed
qed

lemma foldl_mergeLoader_loaded_credentials:
  "loaded_credentials (foldl (mergeLoader j) st ls) type =
     (case find (\<lambda>loader. credentialTypes loader type \<noteq> None) (rev ls) of
        None \<Rightarrow> loaded_credentials st type
      | Some loader \<Rightarrow> credentialTypes loader type)"
proof (induction ls rule: rev_induct)
  case Nil
  show ?case by simp
next
  case (snoc l ls)
  show ?case
  proof (cases "credentialTypes l type")
    case None
    with snoc show ?thesis by (simp add: mergeLoader_def map_add_def)
  next
    case (Some e)
    then show ?thesis by (simp add: mergeLoader_def map_add_def)
  qed
qed

lemma foldl_mergeLoader_types_nodes:
  "types_nodes (foldl (mergeLoader j) st ls) = types_nodes st @ concat (map loader_types_nodes ls)"
  by (induction ls rule: rev_induct) (simp_all add: mergeLoader_def)

lemma foldl_mergeLoader_types_credentials:
  "types_credentials (foldl (mergeLoader j) st ls) =
     types_credentials st @ concat (map loader_types_credentials ls)"
  by (induction ls rule: rev_induct) (simp_all add: mergeLoader_def)

lemma foldl_mergeLoader_loaders:
  "loaders (foldl (mergeLoader j) st ls) = loaders st"
  by (induction ls rule: rev_induct) (simp_all add: mergeLoader_def)

text \<open>
  C5. The rebuild starts from cleared aggregates and goes through the loaders in
  registration order, so that for each type name the last loader that knows it decides:
  the known entry is that loader's entry with \<open>sourcePath\<close> joined to the loader's
  directory, and a known credential has each of its \<open>supportedNodes\<close> prefixed with the
  package name exactly when the loader is not a custom one (for a custom loader the
  list is dropped). The loaded maps and the description lists are merged the same way,
  and the derivation pass and the post processors run on this state.
\<close>

theorem rebuild_merges_loaders_in_order:
  "known_nodes (mergeLoaders host st) type =
     (case find (\<lambda>loader. loader_known_nodes loader type \<noteq> None) (rev (map snd (loaders st))) of
        None \<Rightarrow> None
      | Some loader \<Rightarrow>
          map_option
            (\<lambda>entry. Some \<lparr>kn_className = kn_className entry,
                             kn_sourcePath = path_join host (directory loader) (kn_sourcePath entry)\<rparr>)
            (loader_known_nodes loader type)) \<and>
   known_credentials (mergeLoaders host st) type =
     (case find (\<lambda>loader. loader_known_credentials loader type \<noteq> None)
             (rev (map snd (loaders st))) of
        None \<Rightarrow> None
      | Some loader \<Rightarrow>
          map_option
            (\<lambda>entry. \<lparr>kc_className = kc_className entry,
                        kc_sourcePath = path_join host (directory loader) (kc_sourcePath entry),
                        kc_supportedNodes =
                          (if loaderClass loader \<noteq> CustomDirectoryLoader
                           then map_option (map (\<lambda>nodeName. packageName loader @ ''.'' @ nodeName))
                                  (kc_supportedNodes entry)
                           else None),
                        kc_extends = kc_extends entry\<rparr>)
            (loader_known_credentials loader type)) \<and>
   loaded_nodes (mergeLoaders host st) type =
     (case find (\<lambda>loader. nodeTypes loader type \<noteq> None) (rev (map snd (loaders st))) of
        None \<Rightarrow> None
      | Some loader \<Rightarrow> nodeTypes loader type) \<and>
   loaded_credentials (mergeLoaders host st) type =
     (case find (\<lambda>loader. credentialTypes loader type \<noteq> None) (rev (map snd (loaders st))) of
        None \<Rightarrow> None
      | Some loader \<Rightarrow> credentialTypes loader type) \<and>
   types_nodes (mergeLoaders host st) = concat (map (loader_types_nodes \<circ> snd) (loaders st)) \<and>
   types_credentials (mergeLoaders host st) =
     concat (map (loader_types_credentials \<circ> snd) (loaders st)) \<and>
   postProcessLoaders host st =
     (case derivationPass host (mergeLoaders host st) of
        Inl e \<Rightarrow> Inl e
      | Inr st' \<Rightarrow> runPostProcessors (postProcessors host) st')"
proof -
  have q1: "qualifyKnownNode (path_join host) loader =
     (\<lambda>entry. \<lparr>kn_className = kn_className entry,
                 kn_sourcePath = path_join host (directory loader) (kn_sourcePath entry)\<rparr>)" for loader
    by (rule ext) (simp add: qualifyKnownNode_def)
  have q2: "qualifyKnownCredential (path_join host) loader =
     (\<lambda>entry. \<lparr>kc_className = kc_className entry,
                        kc_sourcePath = path_join host (directory loader) (kc_sourcePath entry),
                        kc_supportedNodes =
                          (if loaderClass loader \<noteq> CustomDirectoryLoader
                           then map_option (map (\<lambda>nodeName. packageName loader @ ''.'' @ nodeName))
                                  (kc_supportedNodes entry)
                           else None),
                        kc_extends = kc_extends entry\<rparr>)" for loader
    by (rule ext) (simp add: qualifyKnownCredential_def instanceofPackageDirectoryLoader_def)
  have c: "known_nodes (clearAggregates st) type = None"
    "known_credentials (clearAggregates st) type = None"
    "loaded_nodes (clearAggregates st) type = None"
    "loaded_credentials (clearAggregates st) type = None"
    "types_nodes (clearAggregates st) = []" "types_credentials (clearAggregates st) = []"
    by (simp_all add: clearAggregates_def)
  show ?thesis
    unfolding mergeLoaders_def
    by (simp add: foldl_mergeLoader_known_nodes foldl_mergeLoader_known_credentials
          foldl_mergeLoader_loaded_nodes foldl_mergeLoader_loaded_credentials
          foldl_mergeLoader_types_nodes foldl_mergeLoader_types_credentials
          c q1 q2 postProcessLoaders_def mergeLoaders_def map_concat
          cong: option.case_cong)
qed

lemma alphaBeta_loaders:
  "map snd (loaders alphaBetaService) = [alphaLoader, betaLoader]"
  by (simp add: alphaBetaService_def emptyService_def)

lemma alpha_fields:
  "loader_known_nodes alphaLoader ''Foo'' = Some \<lparr>kn_className = ''Foo'', kn_sourcePath = ''dist/Foo.node.js''\<rparr>"
  "loader_known_credentials alphaLoader = Map.empty"
  "directory alphaLoader = ''/nodes/alpha''"
  "nodeTypes alphaLoader = [''Foo'' \<mapsto> \<lparr>loaded_type = ''Foo'', loaded_sourcePath = ''dist/Foo.node.js''\<rparr>]"
  "credentialTypes alphaLoader = Map.empty"
  "loader_types_nodes alphaLoader = [Foo (Some [getOption])]"
  "loader_types_credentials alphaLoader = []"
  "loader_known_nodes alphaLoader = [''Foo'' \<mapsto> \<lparr>kn_className = ''Foo'', kn_sourcePath = ''dist/Foo.node.js''\<rparr>]"
  by (simp_all add: alphaLoader_def emptyLoader_def)

lemma beta_fields:
  "loader_known_nodes betaLoader = Map.empty"
  "loader_known_credentials betaLoader ''BarApi'' =
     Some \<lparr>kc_className = ''BarApi'', kc_sourcePath = ''dist/BarApi.credentials.js'',
           kc_supportedNodes = Some [''Foo''], kc_extends = Some [''oAuth2Api'']\<rparr>"
  "directory betaLoader = ''/nodes/beta''"
  "packageName betaLoader = ''beta''"
  "loaderClass betaLoader = LazyPackageDirectoryLoader"
  "nodeTypes betaLoader = Map.empty"
  "credentialTypes betaLoader = Map.empty"
  "loader_types_nodes betaLoader = []"
  "loader_types_credentials betaLoader = [BarApi]"
  "loader_known_credentials betaLoader =
     [''BarApi'' \<mapsto> \<lparr>kc_className = ''BarApi'', kc_sourcePath = ''dist/BarApi.credentials.js'',
           kc_supportedNodes = Some [''Foo''], kc_extends = Some [''oAuth2Api'']\<rparr>]"
  by (simp_all add: betaLoader_def emptyLoader_def)

theorem rebuild_merges_loaders_in_order_witness:
  "known_nodes (mergeLoaders exampleHost alphaBetaService) ''Foo'' =
     Some (Some \<lparr>kn_className = ''Foo'', kn_sourcePath = ''/nodes/alpha/dist/Foo.node.js''\<rparr>) \<and>
   known_credentials (mergeLoaders exampleHost alphaBetaService) ''BarApi'' =
     Some \<lparr>kc_className = ''BarApi'', kc_sourcePath = ''/nodes/beta/dist/BarApi.credentials.js'',
           kc_supportedNodes = Some [''beta.Foo''], kc_extends = Some [''oAuth2Api'']\<rparr> \<and>
   types_nodes (mergeLoaders exampleHost alphaBetaService) = [Foo (Some [getOption])] \<and>
   types_credentials (mergeLoaders exampleHost alphaBetaService) = [BarApi]"
proof -
  have j: "path_join exampleHost = (\<lambda>a b. a @ ''/'' @ b)" by (simp add: exampleHost_def)
  from rebuild_merges_loaders_in_order [of exampleHost alphaBetaService "''Foo''"]
  have 1: "known_nodes (mergeLoaders exampleHost alphaBetaService) ''Foo'' =
     Some (Some \<lparr>kn_className = ''Foo'', kn_sourcePath = ''/nodes/alpha/dist/Foo.node.js''\<rparr>)"
    by (simp add: alphaBeta_loaders alpha_fields(1,3) beta_fields(1) j)
  from rebuild_merges_loaders_in_order [of exampleHost alphaBetaService "''BarApi''"]
  have 2: "known_credentials (mergeLoaders exampleHost alphaBetaService) ''BarApi'' =
     Some \<lparr>kc_className = ''BarApi'', kc_sourcePath = ''/nodes/beta/dist/BarApi.credentials.js'',
           kc_supportedNodes = Some [''beta.Foo''], kc_extends = Some [''oAuth2Api'']\<rparr>"
    by (simp add: alphaBeta_loaders beta_fields(2,3,4,5) j)
  from rebuild_merges_loaders_in_order [of exampleHost alphaBetaService "''Foo''"]
  have 3: "types_nodes (mergeLoaders exampleHost alphaBetaService) = [Foo (Some [getOption])]"
    "types_credentials (mergeLoaders exampleHost alphaBetaService) = [BarApi]"
    by (simp_all add: alphaBetaService_def emptyService_def alpha_fields(6,7) beta_fields(8,9))
  from 1 2 3 show ?thesis by simp
qed

section \<open>Known and loaded types after a rebuild\<close>





















section \<open>Duplicate packages\<close>

text \<open>
  C3, as amended. A directory whose loader has the name of an active loader makes
  \<open>runDirectoryLoader\<close> throw the already-loaded error and leave the service as it was:
  the loader is not added and the earlier one stays. The throw leaves \<open>loadPackage\<close>,
  ends the loop over the custom directories and with it \<open>init\<close>; in the scan of a modules
  directory it is caught, logged and reported, and the scan goes on with the next
  package.
\<close>

theorem duplicate_package_throws_and_is_caught_in_scan:
  assumes "construct host cls dir (excludeNodes st) (includeNodes st) = Inr loader"
    and "map_of (loaders st) (packageName loader) = Some prior"
  shows "runDirectoryLoader host cls dir st =
           (Inl (ApplicationError (red host (alreadyLoadedMessage (packageName loader) dir))), st) \<and>
         (cls = PackageDirectoryLoader \<and>
          dir = path_join host (path_join host (nodesDownloadDir host) ''node_modules'') name \<longrightarrow>
            loadPackage host name st =
              (Inl (ApplicationError (red host (alreadyLoadedMessage (packageName loader) dir))), st)) \<and>
         (cls = CustomDirectoryLoader \<longrightarrow>
            loadCustomDirectories host (dir # rest) st =
              (Some (ApplicationError (red host (alreadyLoadedMessage (packageName loader) dir))), st)) \<and>
         (cls = LazyPackageDirectoryLoader \<and> dir = path_join host nodeModulesDir packagePath \<longrightarrow>
            loadInstalledPackages host nodeModulesDir (packagePath # rest) st =
              loadInstalledPackages host nodeModulesDir rest
                (st\<lparr>logger := logger st @
                   [LogError (red host (alreadyLoadedMessage (packageName loader) dir)),
                    Reported (ApplicationError
                      (red host (alreadyLoadedMessage (packageName loader) dir)))]\<rparr>)) \<and>
         (cls = CustomDirectoryLoader \<and> \<not> inTest host \<and>
          scanInstalledPackages host st0 = st \<and> getCustomDirectories host = dir # rest \<longrightarrow>
            init host st0 =
              Inl (ApplicationError (red host (alreadyLoadedMessage (packageName loader) dir))))"
proof -
  from assms have r: "runDirectoryLoader host cls dir st =
           (Inl (ApplicationError (red host (alreadyLoadedMessage (packageName loader) dir))), st)"
    by (simp add: runDirectoryLoader_def)
  then show ?thesis
    by (auto simp: loadPackage_def errorMessage_def init_def loadNodesFromCustomDirectories_def)
qed

lemma last_split_base:
  "last (splitOn (CHR ''/'') ''/usr/lib/n8n/../n8n-nodes-base'') = ''n8n-nodes-base''"
  "last (splitOn (CHR ''/'') ''/usr/lib/n8n/node_modules/n8n-nodes-base'') = ''n8n-nodes-base''"
  by simp_all

lemma foldl_mergeLoader_logger:
  "logger (foldl (mergeLoader j) st ls) = logger st"
  by (induction ls rule: rev_induct) (simp_all add: mergeLoader_def)

lemma mergeLoaders_loaders:
  "loaders (mergeLoaders host st) = loaders st" "logger (mergeLoaders host st) = logger st"
  by (simp_all add: mergeLoaders_def foldl_mergeLoader_loaders foldl_mergeLoader_logger
        clearAggregates_def)

text \<open>
  \<open>init\<close> finds \<open>n8n-nodes-base\<close> under both base paths; the second attempt is logged
  and \<open>init\<close> returns with its loaders.
\<close>

theorem init_survives_duplicate_counterexample:
  "(case init exampleHost emptyService of
      Inl e \<Rightarrow> None
    | Inr st' \<Rightarrow> Some (map fst (loaders st'), logger st')) =
   Some ([''n8n-nodes-base'', ''CUSTOM''],
         [LogError (alreadyLoadedMessage ''n8n-nodes-base'' ''/usr/lib/n8n/node_modules/n8n-nodes-base''),
          Reported (ApplicationError
            (alreadyLoadedMessage ''n8n-nodes-base'' ''/usr/lib/n8n/node_modules/n8n-nodes-base''))])"
proof -
  define base where
    "base = emptyLoader LazyPackageDirectoryLoader ''n8n-nodes-base'' ''/usr/lib/n8n/../n8n-nodes-base''"
  define custom where
    "custom = emptyLoader CustomDirectoryLoader ''CUSTOM'' ''/home/node/.n8n/custom''"
  define dup where
    "dup = ApplicationError
            (alreadyLoadedMessage ''n8n-nodes-base'' ''/usr/lib/n8n/node_modules/n8n-nodes-base'')"
  define s1 where "s1 = emptyService\<lparr>excludeNodes := Some [''n8n-nodes-base.e2eTest'']\<rparr>"
  define s2 where "s2 = s1\<lparr>loaders := [(''n8n-nodes-base'', base)]\<rparr>"
  define s3 where "s3 = s2\<lparr>logger := [LogError (errorMessage dup), Reported dup]\<rparr>"
  define s4 where "s4 = s3\<lparr>loaders := [(''n8n-nodes-base'', base), (''CUSTOM'', custom)]\<rparr>"
  define s5 where "s5 = (mergeLoaders exampleHost s4)\<lparr>types_nodes := [],
            logger := logger (mergeLoaders exampleHost s4)\<rparr>"
  have h: "path_join exampleHost = (\<lambda>a b. a @ ''/'' @ b)" "red exampleHost = (\<lambda>s. s)"
    "construct exampleHost = (\<lambda>cls dir exclude include.
         Inr (emptyLoader cls
                (if cls = CustomDirectoryLoader then ''CUSTOM'' else last (splitOn (CHR ''/'') dir)) dir))"
    "loadAll exampleHost = (\<lambda>loader. Inr loader)"
    "glob exampleHost = (\<lambda>pattern cwd deep. if pattern = ''n8n-nodes-base'' then [''n8n-nodes-base''] else [])"
    "postProcessors exampleHost = []" "inTest exampleHost = False" "inE2ETests exampleHost = False"
    "CLI_DIR exampleHost = ''/usr/lib/n8n''" "nodesDownloadDir exampleHost = ''/home/node/.n8n/nodes''"
    "customExtensionDir exampleHost = ''/home/node/.n8n/custom''" "customExtensionEnv exampleHost = None"
    by (simp_all add: exampleHost_def)
  have e: "excludeNodes emptyService = None" "includeNodes emptyService = None"
    "loaders emptyService = []" "logger emptyService = []"
    by (simp_all add: emptyService_def)
  have p: "packageName (emptyLoader cls n d) = n" for cls n d by (simp add: emptyLoader_def)
  have 1: "pushE2ETestExclude exampleHost emptyService = s1"
    by (simp add: pushE2ETestExclude_def h e s1_def)
  have 2: "scanBasePath exampleHost s1 ''/usr/lib/n8n/..'' = s2"
    by (simp add: scanBasePath_def loadNodesFromNodeModules_def h e runDirectoryLoader_def p
          last_split_base s1_def s2_def base_def del: splitOn.simps)
  have 3: "scanBasePath exampleHost s2 ''/usr/lib/n8n/node_modules'' = s3"
    by (simp add: scanBasePath_def loadNodesFromNodeModules_def h e runDirectoryLoader_def p
          last_split_base s1_def s2_def s3_def base_def dup_def del: splitOn.simps)
  have 4: "loadNodesFromNodeModules exampleHost ''/home/node/.n8n/nodes/node_modules'' None s3 = s3"
    by (simp add: loadNodesFromNodeModules_def h)
  have 5: "loadNodesFromCustomDirectories exampleHost s3 = (None, s4)"
    by (simp add: loadNodesFromCustomDirectories_def getCustomDirectories_def h e
          runDirectoryLoader_def p s1_def s2_def s3_def s4_def custom_def base_def)
  have m: "types_nodes (mergeLoaders exampleHost s4) = []"
    "types_credentials (mergeLoaders exampleHost s4) = []"
    unfolding mergeLoaders_def foldl_mergeLoader_types_nodes foldl_mergeLoader_types_credentials
    by (simp_all add: clearAggregates_def emptyLoader_def s4_def custom_def base_def)
  have d: "derivationPass exampleHost (mergeLoaders exampleHost s4) = Inr s5"
    by (simp add: derivationPass_def createAiTools_def m s5_def)
  have l: "loaders s5 = [(''n8n-nodes-base'', base), (''CUSTOM'', custom)]"
    "logger s5 = [LogError (errorMessage dup), Reported dup]"
    by (simp_all add: s5_def mergeLoaders_loaders s4_def s3_def)
  have 6: "postProcessLoaders exampleHost s4 = Inr s5"
    by (simp add: postProcessLoaders_def d h)
  have "scanInstalledPackages exampleHost emptyService = s3"
    by (simp add: scanInstalledPackages_def h(1,9,10) Let_def 1 2 3 4)
  then have "init exampleHost emptyService = Inr s5"
    by (simp add: init_def h(7) 5 6)
  then show ?thesis by (simp add: l errorMessage_def dup_def)
qed

lemma second_init_scan:
  "\<exists>st. scanInstalledPackages exampleHost
           (emptyService\<lparr>loaders :=
              [(''CUSTOM'', emptyLoader CustomDirectoryLoader ''CUSTOM'' ''/home/node/.n8n/custom'')]\<rparr>) = st \<and>
        excludeNodes st = Some [''n8n-nodes-base.e2eTest''] \<and> includeNodes st = None \<and>
        map_of (loaders st) ''CUSTOM'' =
          Some (emptyLoader CustomDirectoryLoader ''CUSTOM'' ''/home/node/.n8n/custom'')"
proof -
  define custom where
    "custom = emptyLoader CustomDirectoryLoader ''CUSTOM'' ''/home/node/.n8n/custom''"
  define base where
    "base = emptyLoader LazyPackageDirectoryLoader ''n8n-nodes-base'' ''/usr/lib/n8n/../n8n-nodes-base''"
  define dup where
    "dup = ApplicationError
            (alreadyLoadedMessage ''n8n-nodes-base'' ''/usr/lib/n8n/node_modules/n8n-nodes-base'')"
  define s0 where "s0 = emptyService\<lparr>loaders := [(''CUSTOM'', custom)]\<rparr>"
  define s1 where "s1 = s0\<lparr>excludeNodes := Some [''n8n-nodes-base.e2eTest'']\<rparr>"
  define s2 where "s2 = s1\<lparr>loaders := [(''CUSTOM'', custom), (''n8n-nodes-base'', base)]\<rparr>"
  define s3 where "s3 = s2\<lparr>logger := [LogError (errorMessage dup), Reported dup]\<rparr>"
  have h: "path_join exampleHost = (\<lambda>a b. a @ ''/'' @ b)" "red exampleHost = (\<lambda>s. s)"
    "construct exampleHost = (\<lambda>cls dir exclude include.
         Inr (emptyLoader cls
                (if cls = CustomDirectoryLoader then ''CUSTOM'' else last (splitOn (CHR ''/'') dir)) dir))"
    "loadAll exampleHost = (\<lambda>loader. Inr loader)"
    "glob exampleHost = (\<lambda>pattern cwd deep. if pattern = ''n8n-nodes-base'' then [''n8n-nodes-base''] else [])"
    "inE2ETests exampleHost = False"
    "CLI_DIR exampleHost = ''/usr/lib/n8n''" "nodesDownloadDir exampleHost = ''/home/node/.n8n/nodes''"
    by (simp_all add: exampleHost_def)
  have e: "excludeNodes emptyService = None" "includeNodes emptyService = None"
    "loaders emptyService = []" "logger emptyService = []"
    by (simp_all add: emptyService_def)
  have p: "packageName (emptyLoader cls n d) = n" for cls n d by (simp add: emptyLoader_def)
  have 1: "pushE2ETestExclude exampleHost s0 = s1"
    by (simp add: pushE2ETestExclude_def h e s0_def s1_def)
  have 2: "scanBasePath exampleHost s1 ''/usr/lib/n8n/..'' = s2"
    by (simp add: scanBasePath_def loadNodesFromNodeModules_def h e runDirectoryLoader_def p
          last_split_base s0_def s1_def s2_def base_def custom_def del: splitOn.simps)
  have 3: "scanBasePath exampleHost s2 ''/usr/lib/n8n/node_modules'' = s3"
    by (simp add: scanBasePath_def loadNodesFromNodeModules_def h e runDirectoryLoader_def p
          last_split_base s0_def s1_def s2_def s3_def base_def custom_def dup_def del: splitOn.simps)
  have 4: "loadNodesFromNodeModules exampleHost ''/home/node/.n8n/nodes/node_modules'' None s3 = s3"
    by (simp add: loadNodesFromNodeModules_def h)
  have "scanInstalledPackages exampleHost s0 = s3"
    by (simp add: scanInstalledPackages_def h Let_def 1 2 3 4)
  moreover have "excludeNodes s3 = Some [''n8n-nodes-base.e2eTest'']" "includeNodes s3 = None"
    "map_of (loaders s3) ''CUSTOM'' = Some custom"
    by (simp_all add: s3_def s2_def s1_def s0_def e)
  ultimately show ?thesis unfolding s0_def custom_def by blast
qed


theorem duplicate_package_throws_and_is_caught_in_scan_witness:
  "map_of (loaders (emptyService\<lparr>loaders :=
        [(''CUSTOM'', emptyLoader CustomDirectoryLoader ''CUSTOM'' ''/home/node/.n8n/custom'')]\<rparr>))
      ''CUSTOM'' = Some (emptyLoader CustomDirectoryLoader ''CUSTOM'' ''/home/node/.n8n/custom'') \<and>
   runDirectoryLoader exampleHost CustomDirectoryLoader ''/opt/custom''
      (emptyService\<lparr>loaders :=
        [(''CUSTOM'', emptyLoader CustomDirectoryLoader ''CUSTOM'' ''/home/node/.n8n/custom'')]\<rparr>) =
     (Inl (ApplicationError (alreadyLoadedMessage ''CUSTOM'' ''/opt/custom'')),
      emptyService\<lparr>loaders :=
        [(''CUSTOM'', emptyLoader CustomDirectoryLoader ''CUSTOM'' ''/home/node/.n8n/custom'')]\<rparr>) \<and>
   loadCustomDirectories exampleHost [''/opt/custom'', ''/opt/more'']
      (emptyService\<lparr>loaders :=
        [(''CUSTOM'', emptyLoader CustomDirectoryLoader ''CUSTOM'' ''/home/node/.n8n/custom'')]\<rparr>) =
     (Some (ApplicationError (alreadyLoadedMessage ''CUSTOM'' ''/opt/custom'')),
      emptyService\<lparr>loaders :=
        [(''CUSTOM'', emptyLoader CustomDirectoryLoader ''CUSTOM'' ''/home/node/.n8n/custom'')]\<rparr>) \<and>
   init exampleHost
      (emptyService\<lparr>loaders :=
        [(''CUSTOM'', emptyLoader CustomDirectoryLoader ''CUSTOM'' ''/home/node/.n8n/custom'')]\<rparr>) =
     Inl (ApplicationError (alreadyLoadedMessage ''CUSTOM'' ''/home/node/.n8n/custom''))"
proof -
  define S where "S = emptyService\<lparr>loaders :=
        [(''CUSTOM'', emptyLoader CustomDirectoryLoader ''CUSTOM'' ''/home/node/.n8n/custom'')]\<rparr>"
  define new where "new = emptyLoader CustomDirectoryLoader ''CUSTOM'' ''/opt/custom''"
  define old where "old = emptyLoader CustomDirectoryLoader ''CUSTOM'' ''/home/node/.n8n/custom''"
  have c: "construct exampleHost CustomDirectoryLoader ''/opt/custom'' (excludeNodes S) (includeNodes S)
             = Inr new"
    by (simp add: exampleHost_def new_def)
  have n: "packageName new = ''CUSTOM''" "packageName old = ''CUSTOM''"
    by (simp_all add: new_def old_def emptyLoader_def)
  have m: "map_of (loaders S) (packageName new) = Some old"
    by (simp add: S_def n old_def)
  have r: "red exampleHost = (\<lambda>s. s)" "\<not> inTest exampleHost"
    "getCustomDirectories exampleHost = [''/home/node/.n8n/custom'']"
    by (simp_all add: exampleHost_def getCustomDirectories_def)
  from duplicate_package_throws_and_is_caught_in_scan [OF c m, where rest = "[''/opt/more'']"]
  have 1: "runDirectoryLoader exampleHost CustomDirectoryLoader ''/opt/custom'' S =
       (Inl (ApplicationError (alreadyLoadedMessage ''CUSTOM'' ''/opt/custom'')), S)"
    and 2: "loadCustomDirectories exampleHost [''/opt/custom'', ''/opt/more''] S =
       (Some (ApplicationError (alreadyLoadedMessage ''CUSTOM'' ''/opt/custom'')), S)"
    by (simp_all add: n r)
  from second_init_scan obtain st where
    s: "scanInstalledPackages exampleHost S = st" and
    x: "excludeNodes st = Some [''n8n-nodes-base.e2eTest'']" "includeNodes st = None" and
    k: "map_of (loaders st) ''CUSTOM'' = Some old"
    unfolding S_def old_def by blast
  have c': "construct exampleHost CustomDirectoryLoader ''/home/node/.n8n/custom''
              (excludeNodes st) (includeNodes st) = Inr old"
    by (simp add: exampleHost_def old_def)
  from k n have m': "map_of (loaders st) (packageName old) = Some old" by simp
  from duplicate_package_throws_and_is_caught_in_scan
         [OF c' m', where rest = "[]" and ?st0.0 = S] s r
  have 3: "init exampleHost S =
     Inl (ApplicationError (alreadyLoadedMessage ''CUSTOM'' ''/home/node/.n8n/custom''))"
    by (simp add: n)
  from m n have 0: "map_of (loaders S) ''CUSTOM'' = Some old" by simp
  from 0 1 2 3 show ?thesis unfolding S_def old_def by blast
qed

section \<open>Icon paths\<close>

lemma splitOn_not_Nil: "splitOn c s \<noteq> []"
  by (induction s) (auto split: list.splits)


lemma splitOn_append_sep: "splitOn c (a @ c # b) = splitOn c a @ splitOn c b"
proof (induction a)
  case Nil
  show ?case by simp
next
  case (Cons x a)
  obtain t ts where t: "splitOn c a = t # ts"
    using splitOn_not_Nil [of c a] by (cases "splitOn c a") auto
  with Cons show ?case by simp
qed

lemma splitOn_no_sep_id: "c \<notin> set s \<Longrightarrow> splitOn c s = [s]"
  by (induction s) auto

lemma splitOn_joinWith:
  "segs \<noteq> [] \<Longrightarrow> \<forall>s\<in>set segs. c \<notin> set s \<Longrightarrow> splitOn c (joinWith [c] segs) = segs"
proof (induction "[c]" segs rule: joinWith.induct)
  case 1
  then show ?case by simp
next
  case (2 s)
  then show ?case by (simp add: splitOn_no_sep_id)
next
  case (3 s t ss)
  then show ?case by (simp add: splitOn_append_sep splitOn_no_sep_id)
qed








lemma pathSegments_render:
  assumes "\<forall>s\<in>set segs. s \<noteq> [] \<and> CHR ''/'' \<notin> set s"
  shows "pathSegments (CHR ''/'' # joinWith ''/'' segs) = segs"
proof (cases "segs = []")
  case True
  then show ?thesis by (simp add: pathSegments_def)
next
  case False
  from assms have "\<forall>s\<in>set segs. CHR ''/'' \<notin> set s" by blast
  from splitOn_joinWith [OF False this]
  have "splitOn (CHR ''/'') (joinWith ''/'' segs) = segs" .
  moreover from assms have "filter (\<lambda>seg. seg \<noteq> []) segs = segs" by (simp add: filter_id_conv)
  ultimately show ?thesis by (simp add: pathSegments_def)
qed














end
